theory Spec2Isabelle
  imports Main
begin

section \<open>PlatinumBot: a shallow embedding of the Lambda handler\<close>

text \<open>
  The embedding follows \<^verbatim>\<open>src/index.mjs\<close>; the second source file
  (\<^verbatim>\<open>src/unnamed/part_000\<close>) is a variant of the same handler whose
  \<^verbatim>\<open>processOneUser\<close> fetches the game schema in every run and has no rarity
  table. Its guardrail, state access, diff and runner are the same code; its
  \<^verbatim>\<open>processOneUser\<close> gets a definition of its own (\<open>processOneUser_part000\<close>).

  Conventions.
  \<^item> JavaScript strings are \<open>string\<close>; a character stands for the code point of the
    same number (0..255).
  \<^item> An absent or \<^verbatim>\<open>undefined\<close> property is \<open>None\<close>.
  \<^item> Integral JavaScript numbers are \<open>int\<close> or \<open>nat\<close>. A numeric setting is given
    after \<^verbatim>\<open>Number(...)\<close>, with \<open>0\<close> standing for every falsy result (\<^verbatim>\<open>0\<close>, \<^verbatim>\<open>NaN\<close>).
  \<^item> Every awaited call to the outside (Steam, Discord, DynamoDB) takes its answer
    from a \<open>world\<close> record; a rejected promise is an \<open>error\<close> value.
  \<^item> The state table is an explicit store from partition key to item.
\<close>

subsection \<open>Errors\<close>

datatype error =
    SteamApiError nat string      \<comment> \<open>\<^verbatim>\<open>Steam API error ${status}: ${body}\<close>\<close>
  | DiscordWebhookError nat string \<comment> \<open>\<^verbatim>\<open>Discord webhook error ${status}: ${body}\<close>\<close>
  | DynamoError string             \<comment> \<open>a rejected \<^verbatim>\<open>ddb.send\<close>\<close>
  | JsonSyntaxError string         \<comment> \<open>\<^verbatim>\<open>res.json()\<close> on a body that is not JSON\<close>

subsection \<open>Configuration\<close>

record config =
  ACH_WINDOW_SECONDS :: int
  CONCURRENCY :: int
  DDB_ITEM_MAX_BYTES :: int

definition DEFAULT_WINDOW :: "config \<Rightarrow> int" where
  "DEFAULT_WINDOW cfg = (if ACH_WINDOW_SECONDS cfg = 0 then 900 else ACH_WINDOW_SECONDS cfg)"

definition MAX_CONCURRENCY :: "config \<Rightarrow> int" where
  "MAX_CONCURRENCY cfg = max 1 (if CONCURRENCY cfg = 0 then 3 else CONCURRENCY cfg)"

definition MAX_ITEM_BYTES :: "config \<Rightarrow> int" where
  "MAX_ITEM_BYTES cfg =
     max 100000 (if DDB_ITEM_MAX_BYTES cfg = 0 then 350000 else DDB_ITEM_MAX_BYTES cfg)"

subsection \<open>The persisted item\<close>

text \<open>
  The record written in step 7 of \<^verbatim>\<open>processOneUser\<close>, with the three properties the
  guardrail may add, and the legacy property \<^verbatim>\<open>announced\<close> that \<^verbatim>\<open>getState\<close> still reads.
\<close>

record item =
  PK :: string
  userName :: string                              \<comment> \<open>property \<^verbatim>\<open>name\<close>\<close>
  steamId :: string
  appid :: string
  gameTitle :: string
  totalAchievements :: nat
  unlockedCount :: nat
  lockedCount :: nat
  progressText :: string
  unlockedApiNames :: "string list option"
  lockedApiNames :: "string list option"
  announcedApiNames :: "string list option"
  unannouncedUnlockedApiNames :: "string list option"
  platinumAnnounced :: bool
  updatedAt :: int
  arraysTruncated :: "bool option"
  approxBytesBeforeTruncate :: "nat option"
  announcedDropped :: "bool option"
  announced :: "string list option"

subsection \<open>Serialized size\<close>

text \<open>
  \<^verbatim>\<open>approxUtf8Bytes(obj) = Buffer.byteLength(JSON.stringify(obj), "utf8")\<close>.
  \<^verbatim>\<open>JSON.stringify\<close> writes a string between two quotes; it escapes the quote and the
  backslash and the control characters \<^verbatim>\<open>\b \t \n \f \r\<close> with two characters and every
  other control character as \<^verbatim>\<open>\u00XX\<close>. UTF-8 needs one byte below 128 and two bytes
  from 128 to 255.
\<close>

definition charBytes :: "char \<Rightarrow> nat" where
  "charBytes c =
     (let n = of_char c :: nat in
      if n = 34 \<or> n = 92 then 2
      else if n = 8 \<or> n = 9 \<or> n = 10 \<or> n = 12 \<or> n = 13 then 2
      else if n < 32 then 6
      else if n < 128 then 1
      else 2)"

definition jsonStringBytes :: "string \<Rightarrow> nat" where
  "jsonStringBytes s = 2 + sum_list (map charBytes s)"

fun digitCount :: "nat \<Rightarrow> nat" where
  "digitCount n = (if n < 10 then 1 else 1 + digitCount (n div 10))"

declare digitCount.simps [simp del]

definition jsonNatBytes :: "nat \<Rightarrow> nat" where
  "jsonNatBytes n = digitCount n"

definition jsonIntBytes :: "int \<Rightarrow> nat" where
  "jsonIntBytes i = (if i < 0 then 1 + digitCount (nat (- i)) else digitCount (nat i))"

definition jsonBoolBytes :: "bool \<Rightarrow> nat" where
  "jsonBoolBytes b = (if b then 4 else 5)"

text \<open>An array or object: two brackets, the members, and a comma between members.\<close>

definition joined :: "nat list \<Rightarrow> nat" where
  "joined ms = 2 + sum_list ms + (length ms - 1)"

definition jsonArrayBytes :: "string list \<Rightarrow> nat" where
  "jsonArrayBytes xs = joined (map jsonStringBytes xs)"

text \<open>One member \<^verbatim>\<open>"key":value\<close> of an object; an absent property writes nothing.\<close>

definition member :: "string \<Rightarrow> nat \<Rightarrow> nat list" where
  "member k v = [jsonStringBytes k + 1 + v]"

definition optMember :: "string \<Rightarrow> ('a \<Rightarrow> nat) \<Rightarrow> 'a option \<Rightarrow> nat list" where
  "optMember k f v = (case v of None \<Rightarrow> [] | Some x \<Rightarrow> member k (f x))"

definition approxUtf8Bytes :: "item \<Rightarrow> nat" where
  "approxUtf8Bytes it = joined
     (member ''PK'' (jsonStringBytes (PK it)) @
      member ''name'' (jsonStringBytes (userName it)) @
      member ''steamId'' (jsonStringBytes (steamId it)) @
      member ''appid'' (jsonStringBytes (appid it)) @
      member ''gameTitle'' (jsonStringBytes (gameTitle it)) @
      member ''totalAchievements'' (jsonNatBytes (totalAchievements it)) @
      member ''unlockedCount'' (jsonNatBytes (unlockedCount it)) @
      member ''lockedCount'' (jsonNatBytes (lockedCount it)) @
      member ''progressText'' (jsonStringBytes (progressText it)) @
      optMember ''unlockedApiNames'' jsonArrayBytes (unlockedApiNames it) @
      optMember ''lockedApiNames'' jsonArrayBytes (lockedApiNames it) @
      optMember ''announcedApiNames'' jsonArrayBytes (announcedApiNames it) @
      optMember ''unannouncedUnlockedApiNames'' jsonArrayBytes (unannouncedUnlockedApiNames it) @
      member ''platinumAnnounced'' (jsonBoolBytes (platinumAnnounced it)) @
      member ''updatedAt'' (jsonIntBytes (updatedAt it)) @
      optMember ''arraysTruncated'' jsonBoolBytes (arraysTruncated it) @
      optMember ''approxBytesBeforeTruncate'' jsonNatBytes (approxBytesBeforeTruncate it) @
      optMember ''announcedDropped'' jsonBoolBytes (announcedDropped it) @
      optMember ''announced'' jsonArrayBytes (announced it))"

subsection \<open>The size guardrail\<close>

record guardrailResult =
  g_item :: item
  g_truncated :: bool
  g_bytes :: nat

text \<open>
  \<^verbatim>\<open>trimmed = {...item, unlockedApiNames: undefined, lockedApiNames: undefined,
  unannouncedUnlockedApiNames: undefined, arraysTruncated: true,
  approxBytesBeforeTruncate: initialBytes}\<close>, then every \<^verbatim>\<open>undefined\<close> key is deleted.
\<close>

definition trimArrays :: "nat \<Rightarrow> item \<Rightarrow> item" where
  "trimArrays initialBytes it =
     it\<lparr>unlockedApiNames := None,
        lockedApiNames := None,
        unannouncedUnlockedApiNames := None,
        arraysTruncated := Some True,
        approxBytesBeforeTruncate := Some initialBytes\<rparr>"

definition dropAnnounced :: "item \<Rightarrow> item" where
  "dropAnnounced trimmed = trimmed\<lparr>announcedApiNames := None, announcedDropped := Some True\<rparr>"

definition applyDdbSizeGuardrail :: "config \<Rightarrow> item \<Rightarrow> guardrailResult" where
  "applyDdbSizeGuardrail cfg it =
     (let initialBytes = approxUtf8Bytes it in
      if int initialBytes \<le> MAX_ITEM_BYTES cfg
      then \<lparr>g_item = it, g_truncated = False, g_bytes = initialBytes\<rparr>
      else
        let trimmed = trimArrays initialBytes it;
            finalBytes = approxUtf8Bytes trimmed
        in if int finalBytes > MAX_ITEM_BYTES cfg
           then let trimmed2 = dropAnnounced trimmed;
                    finalFinalBytes = approxUtf8Bytes trimmed2
                in \<lparr>g_item = trimmed2, g_truncated = True, g_bytes = finalFinalBytes\<rparr>
           else \<lparr>g_item = trimmed, g_truncated = True, g_bytes = finalBytes\<rparr>)"

subsection \<open>Steam data\<close>

text \<open>One element of \<^verbatim>\<open>playerstats.achievements\<close> in the provider's answer.\<close>

record playerAchievement =
  pa_apiname :: string
  pa_achieved :: int
  pa_unlocktime :: "int option"

text \<open>The object \<^verbatim>\<open>{ apiname, unlocktime }\<close> built for every unlocked achievement.\<close>

record unlockedEntry =
  apiname :: string
  unlocktime :: int

record steamPlayer =
  gameid :: "string option"
  gameextrainfo :: "string option"

record steamGame =
  game_appid :: "nat option"
  game_name :: "string option"

record schemaJson =
  schema_gameName :: "string option"
  schema_achievements :: "string list option"

record schema =
  schemaGameName :: "string option"
  totalCount :: nat

record target =
  t_appid :: string
  t_gameTitle :: string
  t_source :: string

record user =
  u_name :: string
  u_steamId :: string
  u_windowSeconds :: int

subsection \<open>The outside world\<close>

text \<open>
  What a webhook receives. The text of an embed (titles, colours, rarity line) is
  formatting and is left out; the embed is identified by the achievement it shows.
\<close>

datatype payload = AchievementEmbed unlockedEntry | PlatinumCongrats string

text \<open>
  The answers of one run's awaited calls.
  \<^item> \<open>nowSec\<close>: \<^verbatim>\<open>Math.floor(Date.now() / 1000)\<close>.
  \<^item> \<open>summaries\<close>, \<open>recentGames\<close>: \<^verbatim>\<open>steamGet\<close> of the two game-selection calls, read at
    \<^verbatim>\<open>?.response?.players?.[0]\<close> and \<^verbatim>\<open>?.response?.games?.[0]\<close>.
  \<^item> \<open>playerJson\<close>: \<^verbatim>\<open>steamGet(name, playerUrl)\<close>, read at \<^verbatim>\<open>?.playerstats?.achievements\<close>.
  \<^item> \<open>schemaResponse\<close>, \<open>rarityResponse\<close>: what \<^verbatim>\<open>getSchemaForApp\<close> and \<^verbatim>\<open>getRarityForApp\<close>
    obtain (from their cache or from Steam); the rarity values only colour the embed.
  \<^item> \<open>ddbGet\<close>, \<open>ddbPut\<close>: whether \<^verbatim>\<open>ddb.send\<close> rejects.
  \<^item> \<open>webhook n\<close>: whether the webhook POST made after \<open>n\<close> accepted POSTs of this run
    is refused.
  \<^item> \<open>floorPct\<close>: \<^verbatim>\<open>Math.floor((numer / denom) * 100)\<close>, a floating-point computation.
\<close>

record world =
  nowSec :: int
  summaries :: "error + steamPlayer option"
  recentGames :: "error + steamGame option"
  playerJson :: "error + playerAchievement list option"
  schemaResponse :: "error + schemaJson"
  rarityResponse :: "error option"
  ddbGet :: "error option"
  ddbPut :: "error option"
  webhook :: "nat \<Rightarrow> error option"
  floorPct :: "nat \<Rightarrow> nat \<Rightarrow> nat"

type_synonym store = "string \<Rightarrow> item option"

subsection \<open>Small helpers\<close>

definition percent :: "world \<Rightarrow> nat \<Rightarrow> nat \<Rightarrow> nat" where
  "percent w numer denom = (if denom = 0 then 0 else floorPct w numer denom)"

definition digitChar :: "nat \<Rightarrow> char" where
  "digitChar d = ''0123456789'' ! d"

fun showNat :: "nat \<Rightarrow> string" where
  "showNat n = (if n < 10 then [digitChar n] else showNat (n div 10) @ [digitChar (n mod 10)])"

declare showNat.simps [simp del]

text \<open>\<^verbatim>\<open>String.prototype.trim\<close> on the white space below code point 256.\<close>

definition isWhiteSpace :: "char \<Rightarrow> bool" where
  "isWhiteSpace c = (of_char c \<in> {9, 10, 11, 12, 13, 32, 160 :: nat})"

definition trim :: "string \<Rightarrow> string" where
  "trim s = rev (dropWhile isWhiteSpace (rev (dropWhile isWhiteSpace s)))"

text \<open>
  A JavaScript \<^verbatim>\<open>Set\<close> of strings: its elements in insertion order, without repetition.
  \<^verbatim>\<open>Array.from(set)\<close> is the list itself and \<^verbatim>\<open>set.has(x)\<close> is \<open>x \<in> set s\<close>.
\<close>

definition setAdd :: "string list \<Rightarrow> string \<Rightarrow> string list" where
  "setAdd s x = (if x \<in> set s then s else s @ [x])"

definition newSet :: "string list \<Rightarrow> string list" where
  "newSet xs = foldl setAdd [] xs"

subsection \<open>Game selection and the lazy fetches\<close>

text \<open>
  The second half of \<^verbatim>\<open>resolveTargetGame\<close>: the most recently played game, when the
  player is not in a game. \<^verbatim>\<open>game?.appid\<close> is a number; 0 is falsy.
\<close>

definition recentlyPlayed :: "world \<Rightarrow> error + target option" where
  "recentlyPlayed w =
     (case recentGames w of
        Inl e \<Rightarrow> Inl e
      | Inr None \<Rightarrow> Inr None
      | Inr (Some game) \<Rightarrow>
          (case game_appid game of
             None \<Rightarrow> Inr None
           | Some a \<Rightarrow>
               if a = 0 then Inr None
               else Inr (Some \<lparr>t_appid = showNat a,
                               t_gameTitle = (case game_name game of
                                                Some t \<Rightarrow> t
                                              | None \<Rightarrow> ''Steam App '' @ showNat a),
                               t_source = ''recently_played''\<rparr>)))"

text \<open>\<^verbatim>\<open>player?.gameid\<close> is a string; the empty string is falsy.\<close>

definition resolveTargetGame :: "world \<Rightarrow> error + target option" where
  "resolveTargetGame w =
     (case summaries w of
        Inl e \<Rightarrow> Inl e
      | Inr None \<Rightarrow> recentlyPlayed w
      | Inr (Some player) \<Rightarrow>
          (case gameid player of
             None \<Rightarrow> recentlyPlayed w
           | Some g \<Rightarrow>
               if g = [] then recentlyPlayed w
               else Inr (Some \<lparr>t_appid = g,
                               t_gameTitle = (case gameextrainfo player of
                                                Some t \<Rightarrow> t
                                              | None \<Rightarrow> ''Steam App '' @ g),
                               t_source = ''currently_playing''\<rparr>)))"

definition getSchemaForApp :: "world \<Rightarrow> error + schema" where
  "getSchemaForApp w =
     (case schemaResponse w of
        Inl e \<Rightarrow> Inl e
      | Inr j \<Rightarrow>
          Inr \<lparr>schemaGameName = schema_gameName j,
               totalCount = length (case schema_achievements j of None \<Rightarrow> [] | Some a \<Rightarrow> a)\<rparr>)"

definition getRarityForApp :: "world \<Rightarrow> error option" where
  "getRarityForApp w = rarityResponse w"

subsection \<open>Loading and saving the state\<close>

record loadedState =
  st_exists :: bool
  st_announcedApiNames :: "string list"
  st_platinumAnnounced :: bool

text \<open>\<^verbatim>\<open>out.Item?.announcedApiNames ?? out.Item?.announced ?? []\<close>\<close>

definition announcedOf :: "item option \<Rightarrow> string list" where
  "announcedOf out =
     (case out of
        None \<Rightarrow> []
      | Some i \<Rightarrow>
          (case announcedApiNames i of
             Some xs \<Rightarrow> xs
           | None \<Rightarrow> (case announced i of Some ys \<Rightarrow> ys | None \<Rightarrow> [])))"

text \<open>\<^verbatim>\<open>!!out.Item?.platinumAnnounced\<close>\<close>

definition latchOf :: "item option \<Rightarrow> bool" where
  "latchOf out = (case out of None \<Rightarrow> False | Some i \<Rightarrow> platinumAnnounced i)"

definition loaded :: "store \<Rightarrow> string \<Rightarrow> loadedState" where
  "loaded st pk =
     \<lparr>st_exists = (st pk \<noteq> None),
      st_announcedApiNames = announcedOf (st pk),
      st_platinumAnnounced = latchOf (st pk)\<rparr>"

definition getState :: "world \<Rightarrow> store \<Rightarrow> string \<Rightarrow> error + loadedState" where
  "getState w st pk = (case ddbGet w of Some e \<Rightarrow> Inl e | None \<Rightarrow> Inr (loaded st pk))"

text \<open>A rejected \<^verbatim>\<open>PutCommand\<close> leaves the table as it was.\<close>

definition putStateItem :: "config \<Rightarrow> world \<Rightarrow> store \<Rightarrow> item \<Rightarrow> error + store" where
  "putStateItem cfg w st it =
     (let safeItem = g_item (applyDdbSizeGuardrail cfg it) in
      case ddbPut w of
        Some e \<Rightarrow> Inl e
      | None \<Rightarrow> Inr (st(PK safeItem \<mapsto> safeItem)))"

subsection \<open>The snapshot and what to post\<close>

definition unlocked :: "playerAchievement list \<Rightarrow> unlockedEntry list" where
  "unlocked playerAch =
     sort_key (\<lambda>a. - unlocktime a)
       (map (\<lambda>a. \<lparr>apiname = pa_apiname a,
                  unlocktime = (case pa_unlocktime a of None \<Rightarrow> 0 | Some t \<Rightarrow> t)\<rparr>)
            (filter (\<lambda>a. pa_achieved a = 1) playerAch))"

definition lockedNames :: "playerAchievement list \<Rightarrow> string list" where
  "lockedNames playerAch = map pa_apiname (filter (\<lambda>a. pa_achieved a = 0) playerAch)"

definition unlockedNames :: "playerAchievement list \<Rightarrow> string list" where
  "unlockedNames playerAch = map apiname (unlocked playerAch)"

definition unlockedRecent :: "int \<Rightarrow> playerAchievement list \<Rightarrow> unlockedEntry list" where
  "unlockedRecent cutoff playerAch =
     filter (\<lambda>a. unlocktime a > 0 \<and> unlocktime a \<ge> cutoff) (unlocked playerAch)"

text \<open>
  \<^verbatim>\<open>if (!exists) announcedSet = new Set(unlockedApiNames)\<close> and
  \<^verbatim>\<open>toPost = exists ? unlockedRecent.filter(a => !announcedSet.has(a.apiname)) : unlockedRecent\<close>.
\<close>

definition seedAnnounced :: "loadedState \<Rightarrow> playerAchievement list \<Rightarrow> string list" where
  "seedAnnounced s playerAch =
     (if \<not> st_exists s then newSet (unlockedNames playerAch)
      else newSet (st_announcedApiNames s))"

definition toPost :: "loadedState \<Rightarrow> int \<Rightarrow> playerAchievement list \<Rightarrow> unlockedEntry list" where
  "toPost s cutoff playerAch =
     (if st_exists s
      then filter (\<lambda>a. apiname a \<notin> set (seedAnnounced s playerAch)) (unlockedRecent cutoff playerAch)
      else unlockedRecent cutoff playerAch)"

subsection \<open>Posting\<close>

text \<open>
  \<^verbatim>\<open>postDiscordPayload\<close> throws when the webhook does not answer \<^verbatim>\<open>ok\<close>. The list
  \<open>sent\<close> holds the payloads the webhook has accepted in this run, oldest first.
\<close>

definition postDiscordPayload :: "world \<Rightarrow> payload list \<Rightarrow> payload \<Rightarrow> error + payload list" where
  "postDiscordPayload w sent p =
     (case webhook w (length sent) of Some e \<Rightarrow> Inl e | None \<Rightarrow> Inr (sent @ [p]))"

text \<open>
  Step 5, the loop \<^verbatim>\<open>for (const a of toPost) { await postDiscordEmbed(...);
  await recordAchievementEvent(...); announcedSet.add(a.apiname); }\<close>.
  \<^verbatim>\<open>recordAchievementEvent\<close> writes to the optional event table and swallows every
  error, so it neither throws nor touches the state table; it is left out.
  The result is the error that ended the loop (if any), the announced set and the
  accepted payloads.
\<close>

fun postEmbeds ::
  "world \<Rightarrow> unlockedEntry list \<Rightarrow> string list \<Rightarrow> payload list
     \<Rightarrow> error option \<times> string list \<times> payload list" where
  "postEmbeds w [] announcedSet sent = (None, announcedSet, sent)"
| "postEmbeds w (a # rest) announcedSet sent =
     (case postDiscordPayload w sent (AchievementEmbed a) of
        Inl e \<Rightarrow> (Some e, announcedSet, sent)
      | Inr sent' \<Rightarrow> postEmbeds w rest (setAdd announcedSet (apiname a)) sent')"

text \<open>
  Step 6: \<^verbatim>\<open>if (toPost.length > 0 && isPlatinum && !platinumFlag)
  { await postPlatinumCongrats(...); platinumFlag = true; }\<close>.
  The result is the error (if any), the new flag and the accepted payloads.
\<close>

definition platinumStep ::
  "world \<Rightarrow> unlockedEntry list \<Rightarrow> bool \<Rightarrow> bool \<Rightarrow> string \<Rightarrow> payload list
     \<Rightarrow> error option \<times> bool \<times> payload list" where
  "platinumStep w posts isPlatinum platinumFlag title sent =
     (if posts \<noteq> [] \<and> isPlatinum \<and> \<not> platinumFlag
      then (case postDiscordPayload w sent (PlatinumCongrats title) of
              Inl e \<Rightarrow> (Some e, platinumFlag, sent)
            | Inr sent' \<Rightarrow> (None, True, sent'))
      else (None, platinumFlag, sent))"

subsection \<open>One user's run\<close>

record processed =
  r_name :: string
  r_posted :: nat
  r_appid :: string
  r_gameTitle :: string
  r_progressText :: string
  r_platinum :: bool

datatype userResult =
    NoCurrentOrRecentGame string   \<comment> \<open>\<^verbatim>\<open>{ ok: true, name, posted: 0, reason: "no_current_or_recent_game" }\<close>\<close>
  | Processed processed

text \<open>
  What a run leaves behind: the value the promise settles with (\<open>Inl\<close> when it
  rejects), the payloads the webhook accepted, and the state table afterwards.
\<close>

record outcome =
  result :: "error + userResult"
  sent :: "payload list"
  newStore :: store

definition failed :: "error \<Rightarrow> payload list \<Rightarrow> store \<Rightarrow> outcome" where
  "failed e posted st = \<lparr>result = Inl e, sent = posted, newStore = st\<rparr>"

definition windowSecondsOf :: "config \<Rightarrow> user \<Rightarrow> int" where
  "windowSecondsOf cfg usr =
     (if u_windowSeconds usr = 0 then DEFAULT_WINDOW cfg else u_windowSeconds usr)"

definition pkOf :: "user \<Rightarrow> target \<Rightarrow> string" where
  "pkOf usr tgt = ''steam#'' @ trim (u_steamId usr) @ ''#app#'' @ t_appid tgt"

definition progressTextOf :: "nat \<Rightarrow> nat \<Rightarrow> nat \<Rightarrow> string" where
  "progressTextOf unlockedCnt totalAch pct =
     showNat unlockedCnt @ ''/'' @ showNat totalAch @ '' ('' @ showNat pct @ ''%)''"

text \<open>
  Step 3: the schema and the rarity table are fetched only when there is something to
  post; otherwise \<^verbatim>\<open>totalCount\<close> stays \<^verbatim>\<open>null\<close>.
\<close>

definition lazyFetch :: "world \<Rightarrow> unlockedEntry list \<Rightarrow> error + schema option" where
  "lazyFetch w posts =
     (if posts \<noteq> []
      then (case getSchemaForApp w of
              Inl e \<Rightarrow> Inl e
            | Inr sch \<Rightarrow> (case getRarityForApp w of Some e \<Rightarrow> Inl e | None \<Rightarrow> Inr (Some sch)))
      else Inr None)"

text \<open>\<^verbatim>\<open>if (!gameTitle) gameTitle = schema.schemaGameName || gameTitle\<close>, inside step 3.\<close>

definition titleAfterFetch :: "string \<Rightarrow> schema option \<Rightarrow> string" where
  "titleAfterFetch resolvedGameTitle fetched =
     (case fetched of
        None \<Rightarrow> resolvedGameTitle
      | Some sch \<Rightarrow>
          if resolvedGameTitle = []
          then (case schemaGameName sch of
                  Some g \<Rightarrow> if g = [] then resolvedGameTitle else g
                | None \<Rightarrow> resolvedGameTitle)
          else resolvedGameTitle)"

text \<open>
  Step 4: \<^verbatim>\<open>totalAchievements = (typeof totalCount === "number" ? totalCount : totalFallback)\<close>.
\<close>

definition totalAchievementsOf :: "schema option \<Rightarrow> nat \<Rightarrow> nat \<Rightarrow> nat" where
  "totalAchievementsOf fetched unlockedCnt lockedCnt =
     (case fetched of Some sch \<Rightarrow> totalCount sch | None \<Rightarrow> unlockedCnt + lockedCnt)"

text \<open>Step 7: the item handed to \<^verbatim>\<open>putStateItem\<close>.\<close>

definition stateItem ::
  "world \<Rightarrow> user \<Rightarrow> target \<Rightarrow> playerAchievement list \<Rightarrow> string \<Rightarrow> nat \<Rightarrow> string
     \<Rightarrow> string list \<Rightarrow> bool \<Rightarrow> item" where
  "stateItem w usr tgt playerAch title totalAch progress announcedSet platinumFlag =
     \<lparr>PK = pkOf usr tgt,
      userName = u_name usr,
      steamId = trim (u_steamId usr),
      appid = t_appid tgt,
      gameTitle = title,
      totalAchievements = totalAch,
      unlockedCount = length (unlockedNames playerAch),
      lockedCount = length (lockedNames playerAch),
      progressText = progress,
      unlockedApiNames = Some (unlockedNames playerAch),
      lockedApiNames = Some (lockedNames playerAch),
      announcedApiNames = Some announcedSet,
      unannouncedUnlockedApiNames =
        Some (filter (\<lambda>api. api \<notin> set announcedSet) (unlockedNames playerAch)),
      platinumAnnounced = platinumFlag,
      updatedAt = nowSec w,
      arraysTruncated = None,
      approxBytesBeforeTruncate = None,
      announcedDropped = None,
      announced = None\<rparr>"

text \<open>Steps 5 to 7, the same in both source files.\<close>

definition announceAndPersist ::
  "config \<Rightarrow> world \<Rightarrow> store \<Rightarrow> user \<Rightarrow> target \<Rightarrow> playerAchievement list \<Rightarrow> loadedState
     \<Rightarrow> unlockedEntry list \<Rightarrow> string \<Rightarrow> nat \<Rightarrow> string \<Rightarrow> bool \<Rightarrow> outcome" where
  "announceAndPersist cfg w st usr tgt playerAch s posts title totalAch progress isPlatinum =
     (case postEmbeds w posts (seedAnnounced s playerAch) [] of
        (Some e, _, sent1) \<Rightarrow> failed e sent1 st
      | (None, announcedSet, sent1) \<Rightarrow>
          (case platinumStep w posts isPlatinum (st_platinumAnnounced s) title sent1 of
             (Some e, _, sent2) \<Rightarrow> failed e sent2 st
           | (None, platinumFlag, sent2) \<Rightarrow>
               (case putStateItem cfg w st
                       (stateItem w usr tgt playerAch title totalAch progress
                          announcedSet platinumFlag) of
                  Inl e \<Rightarrow> failed e sent2 st
                | Inr st' \<Rightarrow>
                    \<lparr>result = Inr (Processed
                         \<lparr>r_name = u_name usr,
                          r_posted = length posts,
                          r_appid = t_appid tgt,
                          r_gameTitle = title,
                          r_progressText = progress,
                          r_platinum = isPlatinum\<rparr>),
                     sent = sent2,
                     newStore = st'\<rparr>)))"

text \<open>\<^verbatim>\<open>processOneUser\<close> of \<^verbatim>\<open>src/index.mjs\<close>.\<close>

definition processOneUser :: "config \<Rightarrow> world \<Rightarrow> store \<Rightarrow> user \<Rightarrow> outcome" where
  "processOneUser cfg w st usr =
     (case resolveTargetGame w of
        Inl e \<Rightarrow> failed e [] st
      | Inr None \<Rightarrow> \<lparr>result = Inr (NoCurrentOrRecentGame (u_name usr)), sent = [], newStore = st\<rparr>
      | Inr (Some tgt) \<Rightarrow>
          (case playerJson w of
             Inl e \<Rightarrow> failed e [] st
           | Inr body \<Rightarrow>
               (let playerAch = (case body of None \<Rightarrow> [] | Some a \<Rightarrow> a);
                    cutoff = nowSec w - windowSecondsOf cfg usr
                in case getState w st (pkOf usr tgt) of
                     Inl e \<Rightarrow> failed e [] st
                   | Inr s \<Rightarrow>
                       (let posts = toPost s cutoff playerAch
                        in case lazyFetch w posts of
                             Inl e \<Rightarrow> failed e [] st
                           | Inr fetched \<Rightarrow>
                               (let title = titleAfterFetch (t_gameTitle tgt) fetched;
                                    unlockedCnt = length (unlockedNames playerAch);
                                    lockedCnt = length (lockedNames playerAch);
                                    totalAch = totalAchievementsOf fetched unlockedCnt lockedCnt;
                                    pctComplete = percent w unlockedCnt totalAch;
                                    progress = progressTextOf unlockedCnt totalAch pctComplete;
                                    isPlatinum = (totalAch > 0 \<and> unlockedCnt = totalAch)
                                in announceAndPersist cfg w st usr tgt playerAch s posts
                                     title totalAch progress isPlatinum)))))"

text \<open>
  \<^verbatim>\<open>processOneUser\<close> of \<^verbatim>\<open>src/unnamed/part_000\<close>: the schema is fetched first, for every
  run, and \<^verbatim>\<open>totalCount\<close> is always the schema's count; there is no rarity fetch.
\<close>

definition titleEager :: "target \<Rightarrow> schema \<Rightarrow> string" where
  "titleEager tgt sch =
     (if t_gameTitle tgt \<noteq> [] then t_gameTitle tgt
      else (case schemaGameName sch of
              Some g \<Rightarrow> if g = [] then ''Steam App '' @ t_appid tgt else g
            | None \<Rightarrow> ''Steam App '' @ t_appid tgt))"

definition processOneUser_part000 :: "config \<Rightarrow> world \<Rightarrow> store \<Rightarrow> user \<Rightarrow> outcome" where
  "processOneUser_part000 cfg w st usr =
     (case resolveTargetGame w of
        Inl e \<Rightarrow> failed e [] st
      | Inr None \<Rightarrow> \<lparr>result = Inr (NoCurrentOrRecentGame (u_name usr)), sent = [], newStore = st\<rparr>
      | Inr (Some tgt) \<Rightarrow>
          (case getSchemaForApp w of
             Inl e \<Rightarrow> failed e [] st
           | Inr sch \<Rightarrow>
               (case playerJson w of
                  Inl e \<Rightarrow> failed e [] st
                | Inr body \<Rightarrow>
                    (let playerAch = (case body of None \<Rightarrow> [] | Some a \<Rightarrow> a);
                         unlockedCnt = length (unlockedNames playerAch);
                         pct = percent w unlockedCnt (totalCount sch);
                         progress = progressTextOf unlockedCnt (totalCount sch) pct;
                         cutoff = nowSec w - windowSecondsOf cfg usr
                     in case getState w st (pkOf usr tgt) of
                          Inl e \<Rightarrow> failed e [] st
                        | Inr s \<Rightarrow>
                            (let posts = toPost s cutoff playerAch;
                                 isPlatinum = (totalCount sch > 0 \<and> unlockedCnt = totalCount sch)
                             in announceAndPersist cfg w st usr tgt playerAch s posts
                                  (titleEager tgt sch) (totalCount sch) progress isPlatinum)))))"

subsection \<open>Runs one after another\<close>


fun finalStore :: "config \<Rightarrow> store \<Rightarrow> (world \<times> user) list \<Rightarrow> store" where
  "finalStore cfg st [] = st"
| "finalStore cfg st ((w, usr) # rest) =
     finalStore cfg (newStore (processOneUser cfg w st usr)) rest"



text \<open>The (user, game) pair a run works on, as its partition key.\<close>

definition pairOf :: "world \<Rightarrow> user \<Rightarrow> string option" where
  "pairOf w usr =
     (case resolveTargetGame w of Inr (Some tgt) \<Rightarrow> Some (pkOf usr tgt) | _ \<Rightarrow> None)"

text \<open>The snapshot a run reads: \<^verbatim>\<open>playerJson?.playerstats?.achievements ?? []\<close>.\<close>

definition snapshotOf :: "world \<Rightarrow> playerAchievement list" where
  "snapshotOf w = (case playerJson w of Inr (Some a) \<Rightarrow> a | _ \<Rightarrow> [])"

text \<open>The api names the given runs have seen unlocked for the pair \<open>pk\<close>.\<close>

definition seenUnlocked :: "(world \<times> user) list \<Rightarrow> string \<Rightarrow> string set" where
  "seenUnlocked runs pk =
     (\<Union>(w, usr) \<in> set runs. if pairOf w usr = Some pk then set (unlockedNames (snapshotOf w)) else {})"

text \<open>The achievements a run announced, and whether it posted the celebration.\<close>

fun embedsOf :: "payload list \<Rightarrow> unlockedEntry list" where
  "embedsOf [] = []"
| "embedsOf (AchievementEmbed a # ps) = a # embedsOf ps"
| "embedsOf (PlatinumCongrats title # ps) = embedsOf ps"

fun isCongrats :: "payload \<Rightarrow> bool" where
  "isCongrats (PlatinumCongrats title) = True"
| "isCongrats (AchievementEmbed a) = False"


subsection \<open>The concurrency runner\<close>

text \<open>
  \<^verbatim>\<open>runWithConcurrency(items, worker, concurrency)\<close> starts
  \<^verbatim>\<open>Math.min(concurrency, items.length)\<close> runners that share the counter \<^verbatim>\<open>idx\<close> and the
  array \<^verbatim>\<open>results\<close>. A runner is either at the top of its loop (about to execute
  \<^verbatim>\<open>current = idx++\<close>), or awaiting the worker for \<^verbatim>\<open>items[current]\<close>, or has returned.
  The event loop resumes one runner at a time; a schedule is the list of runners in
  the order they are resumed, and the properties below hold for every schedule.
  The worker's promise settles with \<open>Inr\<close> (a value) or \<open>Inl\<close> (the thrown error's
  message).
\<close>

datatype 'r slot = Empty | Value 'r | Failure string

datatype runnerState = Pulling | Awaiting nat | Returned

record 'r pool =
  idx :: nat
  results :: "'r slot list"
  runners :: "runnerState list"
  attempted :: "nat list"

definition settled :: "string + 'r \<Rightarrow> 'r slot" where
  "settled x = (case x of Inl msg \<Rightarrow> Failure msg | Inr v \<Rightarrow> Value v)"

definition initPool :: "'u list \<Rightarrow> int \<Rightarrow> 'r pool" where
  "initPool items concurrency =
     \<lparr>idx = 0,
      results = replicate (length items) Empty,
      runners = replicate (nat (min concurrency (int (length items)))) Pulling,
      attempted = []\<rparr>"

definition resume :: "'u list \<Rightarrow> ('u \<Rightarrow> string + 'r) \<Rightarrow> 'r pool \<Rightarrow> nat \<Rightarrow> 'r pool" where
  "resume items worker p r =
     (if r < length (runners p) then
        (case runners p ! r of
           Pulling \<Rightarrow>
             if idx p \<ge> length items
             then p\<lparr>idx := idx p + 1, runners := (runners p)[r := Returned]\<rparr>
             else p\<lparr>idx := idx p + 1,
                    runners := (runners p)[r := Awaiting (idx p)],
                    attempted := attempted p @ [idx p]\<rparr>
         | Awaiting current \<Rightarrow>
             p\<lparr>results := (results p)[current := settled (worker (items ! current))],
               runners := (runners p)[r := Pulling]\<rparr>
         | Returned \<Rightarrow> p)
      else p)"

definition finished :: "'r pool \<Rightarrow> bool" where
  "finished p = list_all (\<lambda>r. r = Returned) (runners p)"

definition enabled :: "'r pool \<Rightarrow> nat \<Rightarrow> bool" where
  "enabled p r = (r < length (runners p) \<and> runners p ! r \<noteq> Returned)"

text \<open>A schedule that only resumes runners that have not returned.\<close>

fun validFrom :: "'u list \<Rightarrow> ('u \<Rightarrow> string + 'r) \<Rightarrow> 'r pool \<Rightarrow> nat list \<Rightarrow> bool" where
  "validFrom items worker p [] = True"
| "validFrom items worker p (r # rs) =
     (enabled p r \<and> validFrom items worker (resume items worker p r) rs)"

text \<open>
  The value of \<^verbatim>\<open>runWithConcurrency\<close> once \<^verbatim>\<open>Promise.all(runners)\<close> has resolved under
  the given schedule; \<open>None\<close> while some runner has not returned.
\<close>

definition runWithConcurrency ::
  "'u list \<Rightarrow> ('u \<Rightarrow> string + 'r) \<Rightarrow> int \<Rightarrow> nat list \<Rightarrow> 'r slot list option" where
  "runWithConcurrency items worker concurrency schedule =
     (let p = foldl (resume items worker) (initPool items concurrency) schedule
      in if finished p then Some (results p) else None)"

definition attemptsOf :: "'u list \<Rightarrow> ('u \<Rightarrow> string + 'r) \<Rightarrow> int \<Rightarrow> nat list \<Rightarrow> nat list" where
  "attemptsOf items worker concurrency schedule =
     attempted (foldl (resume items worker) (initPool items concurrency) schedule)"

text \<open>
  What holds of the pool at every moment of every schedule: \<^verbatim>\<open>results\<close> keeps its
  length; a runner awaits only an index it has taken; a slot holds its unit's outcome
  or is still empty, and an empty slot below \<^verbatim>\<open>idx\<close> has a runner awaiting it; a runner
  returns only after the counter has passed the last unit; the worker has been
  started on the indices below \<^verbatim>\<open>idx\<close>, in order, once each.
\<close>

definition poolInv :: "'u list \<Rightarrow> ('u \<Rightarrow> string + 'r) \<Rightarrow> 'r pool \<Rightarrow> bool" where
  "poolInv items worker p =
     (length (results p) = length items \<and>
      (\<forall>r < length (runners p). \<forall>c. runners p ! r = Awaiting c \<longrightarrow> c < idx p \<and> c < length items) \<and>
      (\<forall>i < length items.
          results p ! i = settled (worker (items ! i)) \<or>
          results p ! i = Empty \<and>
            (idx p \<le> i \<or> (\<exists>r < length (runners p). runners p ! r = Awaiting i))) \<and>
      ((\<exists>r < length (runners p). runners p ! r = Returned) \<longrightarrow> length items \<le> idx p) \<and>
      attempted p = [0 ..< min (idx p) (length items)])"

text \<open>A bound on the resumptions still to come.\<close>

fun weight :: "runnerState \<Rightarrow> nat" where
  "weight Pulling = 2"
| "weight (Awaiting current) = 3"
| "weight Returned = 0"

definition remaining :: "'u list \<Rightarrow> 'r pool \<Rightarrow> nat" where
  "remaining items p = 2 * (length items - idx p) + sum_list (map weight (runners p))"

subsection \<open>Example inputs\<close>

text \<open>
  The default settings of \<^verbatim>\<open>src/index.mjs\<close>, one user, and one poll: the user is
  playing app 440, the window is 900 seconds, so the cutoff is 1700000000.
  Achievement A was unlocked exactly at the cutoff, B one second before it, C carries
  no time stamp, D is locked.
\<close>

definition cfg0 :: config where
  "cfg0 = \<lparr>ACH_WINDOW_SECONDS = 900, CONCURRENCY = 3, DDB_ITEM_MAX_BYTES = 350000\<rparr>"

definition userA :: user where
  "userA = \<lparr>u_name = ''Ricky'', u_steamId = ''7656'', u_windowSeconds = 0\<rparr>"

definition noStore :: store where
  "noStore = Map.empty"

definition alwaysAccept :: "nat \<Rightarrow> error option" where
  "alwaysAccept n = None"

definition refuseSecond :: "nat \<Rightarrow> error option" where
  "refuseSecond n = (if n = 1 then Some (DiscordWebhookError 500 ''down'') else None)"

definition exactPct :: "nat \<Rightarrow> nat \<Rightarrow> nat" where
  "exactPct numer denom = numer * 100 div denom"

definition worldA :: world where
  "worldA =
     \<lparr>nowSec = 1700000900,
      summaries = Inr (Some \<lparr>gameid = Some ''440'', gameextrainfo = Some ''TF2''\<rparr>),
      recentGames = Inr None,
      playerJson = Inr (Some
        [\<lparr>pa_apiname = ''A'', pa_achieved = 1, pa_unlocktime = Some 1700000000\<rparr>,
         \<lparr>pa_apiname = ''B'', pa_achieved = 1, pa_unlocktime = Some 1699999999\<rparr>,
         \<lparr>pa_apiname = ''C'', pa_achieved = 1, pa_unlocktime = None\<rparr>,
         \<lparr>pa_apiname = ''D'', pa_achieved = 0, pa_unlocktime = Some 0\<rparr>]),
      schemaResponse = Inr \<lparr>schema_gameName = Some ''TF2'',
                             schema_achievements = Some [''A'', ''B'', ''C'', ''D'']\<rparr>,
      rarityResponse = None,
      ddbGet = None,
      ddbPut = None,
      webhook = alwaysAccept,
      floorPct = exactPct\<rparr>"

text \<open>A game with a single achievement, unlocked 100 seconds before the poll of \<open>worldA\<close>.\<close>

definition onlyA :: "playerAchievement list" where
  "onlyA = [\<lparr>pa_apiname = ''A'', pa_achieved = 1, pa_unlocktime = Some 1700000800\<rparr>]"

definition schemaOnlyA :: schemaJson where
  "schemaOnlyA = \<lparr>schema_gameName = Some ''TF2'', schema_achievements = Some [''A'']\<rparr>"

text \<open>
  A snapshot whose only item is locked and yet carries a time stamp 400 seconds before
  the poll of \<open>worldA\<close>.
\<close>

definition lockedInWindow :: "playerAchievement list" where
  "lockedInWindow = [\<lparr>pa_apiname = ''D'', pa_achieved = 0, pa_unlocktime = Some 1700000500\<rparr>]"

text \<open>A record of the pair of \<open>worldA\<close> and \<open>userA\<close>, as an earlier run has left it.\<close>

definition itemB :: item where
  "itemB =
     \<lparr>PK = ''steam#7656#app#440'', userName = ''Ricky'', steamId = ''7656'', appid = ''440'',
      gameTitle = ''TF2'', totalAchievements = 4, unlockedCount = 3, lockedCount = 1,
      progressText = ''3/4 (75%)'',
      unlockedApiNames = Some [''A'', ''B'', ''C''],
      lockedApiNames = Some [''D''],
      announcedApiNames = Some [''B'', ''C''],
      unannouncedUnlockedApiNames = Some [''A''],
      platinumAnnounced = True, updatedAt = 1700000000,
      arraysTruncated = None, approxBytesBeforeTruncate = None, announcedDropped = None,
      announced = None\<rparr>"

definition storeB :: store where
  "storeB = noStore(''steam#7656#app#440'' \<mapsto> itemB)"

text \<open>An item of about 620 kB: 20000 unlocked achievements with names of 28 characters.\<close>

definition bigItem :: item where
  "bigItem =
     \<lparr>PK = ''steam#7656#app#440'', userName = ''Ricky'', steamId = ''7656'', appid = ''440'',
      gameTitle = ''TF2'', totalAchievements = 20001, unlockedCount = 20000, lockedCount = 1,
      progressText = ''20000/20001 (99%)'',
      unlockedApiNames = Some (replicate 20000 ''ACHIEVEMENT_WITH_A_LONG_NAME''),
      lockedApiNames = Some [''D''],
      announcedApiNames = Some [''ACHIEVEMENT_WITH_A_LONG_NAME''],
      unannouncedUnlockedApiNames = Some [],
      platinumAnnounced = False, updatedAt = 1700000900,
      arraysTruncated = None, approxBytesBeforeTruncate = None, announcedDropped = None,
      announced = None\<rparr>"

text \<open>A worker that throws on the unit \<open>''bob''\<close> and returns the length of any other unit.\<close>

definition workerEx :: "string \<Rightarrow> string + nat" where
  "workerEx u = (if u = ''bob'' then Inl ''Steam API error 500: down'' else Inr (length u))"

section \<open>Verification\<close>

subsection \<open>Sets, the post loop, the guardrail\<close>

lemma set_setAdd: "set (setAdd s x) = insert x (set s)"
  by (auto simp: setAdd_def)

lemma set_foldl_setAdd: "set (foldl setAdd s xs) = set s \<union> set xs"
  by (induction xs arbitrary: s) (auto simp: set_setAdd)

lemma set_newSet: "set (newSet xs) = set xs"
  by (simp add: newSet_def set_foldl_setAdd)

lemma set_unlocked:
  "set (unlocked pa) =
     (\<lambda>a. \<lparr>apiname = pa_apiname a,
            unlocktime = (case pa_unlocktime a of None \<Rightarrow> 0 | Some t \<Rightarrow> t)\<rparr>) `
       {a \<in> set pa. pa_achieved a = 1}"
  by (simp add: unlocked_def)

lemma postEmbeds_shape:
  "postEmbeds w posts aset sent0 = (r, aset', sent1) \<Longrightarrow>
     \<exists>k \<le> length posts.
        sent1 = sent0 @ map AchievementEmbed (take k posts) \<and>
        aset' = foldl setAdd aset (map apiname (take k posts)) \<and>
        (r = None \<longrightarrow> k = length posts) \<and>
        (\<forall>e. r = Some e \<longrightarrow> k < length posts \<and> webhook w (length sent0 + k) = Some e)"
proof (induction posts arbitrary: aset sent0)
  case Nil
  then show ?case by simp
next
  case (Cons a rest)
  show ?case
  proof (cases "webhook w (length sent0)")
    case None
    with Cons.prems have
      "postEmbeds w rest (setAdd aset (apiname a)) (sent0 @ [AchievementEmbed a]) = (r, aset', sent1)"
      by (simp add: postDiscordPayload_def)
    from Cons.IH [OF this] obtain k where k: "k \<le> length rest"
      "sent1 = (sent0 @ [AchievementEmbed a]) @ map AchievementEmbed (take k rest)"
      "aset' = foldl setAdd (setAdd aset (apiname a)) (map apiname (take k rest))"
      "r = None \<longrightarrow> k = length rest"
      "\<forall>e. r = Some e \<longrightarrow> k < length rest \<and> webhook w (length (sent0 @ [AchievementEmbed a]) + k) = Some e"
      by blast
    show ?thesis
      by (rule exI [of _ "Suc k"]) (use k in simp)
  next
    case (Some e)
    with Cons.prems have "r = Some e" "aset' = aset" "sent1 = sent0"
      by (simp_all add: postDiscordPayload_def)
    then show ?thesis using Some
      by (intro exI [of _ 0]) simp
  qed
qed

lemma guardrail_cases:
  "g_item (applyDdbSizeGuardrail cfg it) = it \<or>
   g_item (applyDdbSizeGuardrail cfg it) = trimArrays (approxUtf8Bytes it) it \<or>
   g_item (applyDdbSizeGuardrail cfg it) = dropAnnounced (trimArrays (approxUtf8Bytes it) it)"
  by (simp add: applyDdbSizeGuardrail_def Let_def)

lemma guardrail_PK: "PK (g_item (applyDdbSizeGuardrail cfg it)) = PK it"
  using guardrail_cases [of cfg it] by (auto simp: trimArrays_def dropAnnounced_def)

lemma guardrail_platinum:
  "platinumAnnounced (g_item (applyDdbSizeGuardrail cfg it)) = platinumAnnounced it"
  using guardrail_cases [of cfg it] by (auto simp: trimArrays_def dropAnnounced_def)

lemma guardrail_legacy:
  "announced (g_item (applyDdbSizeGuardrail cfg it)) = announced it"
  using guardrail_cases [of cfg it] by (auto simp: trimArrays_def dropAnnounced_def)

lemma guardrail_announced:
  "announcedApiNames (g_item (applyDdbSizeGuardrail cfg it)) = announcedApiNames it \<or>
   announcedApiNames (g_item (applyDdbSizeGuardrail cfg it)) = None \<and>
   announcedDropped (g_item (applyDdbSizeGuardrail cfg it)) = Some True"
  using guardrail_cases [of cfg it] by (auto simp: trimArrays_def dropAnnounced_def)

lemma platinumStep_shape:
  assumes "platinumStep w posts isPlatinum flag title sent1 = (r, flag', sent2)"
  shows "(r = None \<longrightarrow>
        flag' = (flag \<or> (posts \<noteq> [] \<and> isPlatinum)) \<and>
        sent2 = sent1 @ (if posts \<noteq> [] \<and> isPlatinum \<and> \<not> flag then [PlatinumCongrats title] else [])) \<and>
     (r \<noteq> None \<longrightarrow> sent2 = sent1 \<and> posts \<noteq> [] \<and> isPlatinum \<and> \<not> flag)"
proof (cases "posts \<noteq> [] \<and> isPlatinum \<and> \<not> flag")
  case True
  show ?thesis
  proof (cases "webhook w (length sent1)")
    case None
    with assms True have "r = None" "flag'" "sent2 = sent1 @ [PlatinumCongrats title]"
      by (simp_all add: platinumStep_def postDiscordPayload_def)
    then show ?thesis using True by simp
  next
    case (Some e)
    with assms True have "r = Some e" "sent2 = sent1"
      by (simp_all add: platinumStep_def postDiscordPayload_def)
    then show ?thesis using True by simp
  qed
next
  case False
  with assms have "r = None" "flag' = flag" "sent2 = sent1"
    by (simp_all add: platinumStep_def)
  then show ?thesis using False by auto
qed

lemma putStateItem_shape:
  "putStateItem cfg w st it =
     (case ddbPut w of
        Some e \<Rightarrow> Inl e
      | None \<Rightarrow> Inr (st(PK it \<mapsto> g_item (applyDdbSizeGuardrail cfg it))))"
  by (simp add: putStateItem_def Let_def guardrail_PK split: option.splits)

lemma ap_fail:
  "result (announceAndPersist cfg w st usr tgt pa s posts title totalAch progress isPlatinum) = Inl e
     \<Longrightarrow> newStore (announceAndPersist cfg w st usr tgt pa s posts title totalAch progress isPlatinum) = st"
  by (auto simp: announceAndPersist_def failed_def split: prod.splits option.splits sum.splits)

lemma ap_ok:
  assumes "result (announceAndPersist cfg w st usr tgt pa s posts title totalAch progress isPlatinum) = Inr r"
  shows "sent (announceAndPersist cfg w st usr tgt pa s posts title totalAch progress isPlatinum) =
           map AchievementEmbed posts @
           (if posts \<noteq> [] \<and> isPlatinum \<and> \<not> st_platinumAnnounced s then [PlatinumCongrats title] else [])"
    and "newStore (announceAndPersist cfg w st usr tgt pa s posts title totalAch progress isPlatinum) =
           st(pkOf usr tgt \<mapsto> g_item (applyDdbSizeGuardrail cfg
                (stateItem w usr tgt pa title totalAch progress
                   (foldl setAdd (seedAnnounced s pa) (map apiname posts))
                   (st_platinumAnnounced s \<or> (posts \<noteq> [] \<and> isPlatinum)))))"
    and "r = Processed \<lparr>r_name = u_name usr, r_posted = length posts, r_appid = t_appid tgt,
                        r_gameTitle = title, r_progressText = progress, r_platinum = isPlatinum\<rparr>"
proof -
  obtain r1 aset sent1 where pe: "postEmbeds w posts (seedAnnounced s pa) [] = (r1, aset, sent1)"
    by (cases "postEmbeds w posts (seedAnnounced s pa) []") auto
  obtain r2 flag' sent2 where ps:
    "platinumStep w posts isPlatinum (st_platinumAnnounced s) title sent1 = (r2, flag', sent2)"
    by (cases "platinumStep w posts isPlatinum (st_platinumAnnounced s) title sent1") auto
  from assms pe have r1: "r1 = None"
    by (auto simp: announceAndPersist_def failed_def split: option.splits)
  from assms pe ps r1 have r2: "r2 = None"
    by (auto simp: announceAndPersist_def failed_def split: option.splits)
  from postEmbeds_shape [OF pe] r1 have s1: "sent1 = map AchievementEmbed posts"
    and a1: "aset = foldl setAdd (seedAnnounced s pa) (map apiname posts)"
    by auto
  from platinumStep_shape [OF ps] r2 have
    f2: "flag' = (st_platinumAnnounced s \<or> (posts \<noteq> [] \<and> isPlatinum))" and
    s2: "sent2 = sent1 @ (if posts \<noteq> [] \<and> isPlatinum \<and> \<not> st_platinumAnnounced s then [PlatinumCongrats title] else [])"
    by auto
  have pkI: "PK (stateItem w usr tgt pa title totalAch progress aset flag') = pkOf usr tgt"
    by (simp add: stateItem_def)
  from assms pe ps r1 r2 have put: "ddbPut w = None"
    by (auto simp: announceAndPersist_def failed_def putStateItem_shape split: option.splits)
  have eq: "announceAndPersist cfg w st usr tgt pa s posts title totalAch progress isPlatinum =
      \<lparr>result = Inr (Processed \<lparr>r_name = u_name usr, r_posted = length posts, r_appid = t_appid tgt,
                        r_gameTitle = title, r_progressText = progress, r_platinum = isPlatinum\<rparr>),
       sent = sent2,
       newStore = st(pkOf usr tgt \<mapsto> g_item (applyDdbSizeGuardrail cfg
                (stateItem w usr tgt pa title totalAch progress aset flag')))\<rparr>"
    using pe ps r1 r2 put pkI
    by (simp add: announceAndPersist_def putStateItem_shape)
  show "sent (announceAndPersist cfg w st usr tgt pa s posts title totalAch progress isPlatinum) =
           map AchievementEmbed posts @
           (if posts \<noteq> [] \<and> isPlatinum \<and> \<not> st_platinumAnnounced s then [PlatinumCongrats title] else [])"
    using eq s1 s2 by simp
  show "newStore (announceAndPersist cfg w st usr tgt pa s posts title totalAch progress isPlatinum) =
           st(pkOf usr tgt \<mapsto> g_item (applyDdbSizeGuardrail cfg
                (stateItem w usr tgt pa title totalAch progress
                   (foldl setAdd (seedAnnounced s pa) (map apiname posts))
                   (st_platinumAnnounced s \<or> (posts \<noteq> [] \<and> isPlatinum)))))"
    using eq a1 f2 by simp
  show "r = Processed \<lparr>r_name = u_name usr, r_posted = length posts, r_appid = t_appid tgt,
                        r_gameTitle = title, r_progressText = progress, r_platinum = isPlatinum\<rparr>"
    using eq assms by simp
qed

lemma ap_sent:
  "\<exists>k \<le> length posts. \<exists>c.
     sent (announceAndPersist cfg w st usr tgt pa s posts title totalAch progress isPlatinum) =
       map AchievementEmbed (take k posts) @ c \<and>
     (c = [] \<or> c = [PlatinumCongrats title] \<and> k = length posts \<and> posts \<noteq> [] \<and> isPlatinum
                 \<and> \<not> st_platinumAnnounced s)"
proof -
  obtain r1 aset sent1 where pe: "postEmbeds w posts (seedAnnounced s pa) [] = (r1, aset, sent1)"
    by (cases "postEmbeds w posts (seedAnnounced s pa) []") auto
  obtain r2 flag' sent2 where ps:
    "platinumStep w posts isPlatinum (st_platinumAnnounced s) title sent1 = (r2, flag', sent2)"
    by (cases "platinumStep w posts isPlatinum (st_platinumAnnounced s) title sent1") auto
  from postEmbeds_shape [OF pe] obtain k where k: "k \<le> length posts"
    "sent1 = map AchievementEmbed (take k posts)" "r1 = None \<longrightarrow> k = length posts"
    by auto
  show ?thesis
  proof (cases r1)
    case (Some e)
    with pe have "sent (announceAndPersist cfg w st usr tgt pa s posts title totalAch progress isPlatinum) = sent1"
      by (simp add: announceAndPersist_def failed_def)
    with k show ?thesis by (intro exI [of _ k]) simp
  next
    case None
    with pe ps have "sent (announceAndPersist cfg w st usr tgt pa s posts title totalAch progress isPlatinum) = sent2"
      by (auto simp: announceAndPersist_def failed_def split: option.splits sum.splits)
    moreover from platinumStep_shape [OF ps] have
      "sent2 = sent1 \<or> sent2 = sent1 @ [PlatinumCongrats title] \<and> posts \<noteq> [] \<and> isPlatinum \<and> \<not> st_platinumAnnounced s"
      by (cases r2) (auto split: if_splits)
    ultimately show ?thesis using k None
      by (intro exI [of _ k]) auto
  qed
qed


lemma snapshotOf_body:
  "playerJson w = Inr body \<Longrightarrow> (case body of None \<Rightarrow> [] | Some a \<Rightarrow> a) = snapshotOf w"
  by (simp add: snapshotOf_def split: option.splits)

lemma processOneUser_unfold:
  assumes "resolveTargetGame w = Inr (Some tgt)"
    and "playerJson w = Inr body"
    and "getState w st (pkOf usr tgt) = Inr s"
    and "lazyFetch w (toPost s (nowSec w - windowSecondsOf cfg usr) (snapshotOf w)) = Inr fetched"
  shows "processOneUser cfg w st usr =
     announceAndPersist cfg w st usr tgt (snapshotOf w) s
       (toPost s (nowSec w - windowSecondsOf cfg usr) (snapshotOf w))
       (titleAfterFetch (t_gameTitle tgt) fetched)
       (totalAchievementsOf fetched (length (unlockedNames (snapshotOf w)))
          (length (lockedNames (snapshotOf w))))
       (progressTextOf (length (unlockedNames (snapshotOf w)))
          (totalAchievementsOf fetched (length (unlockedNames (snapshotOf w)))
             (length (lockedNames (snapshotOf w))))
          (percent w (length (unlockedNames (snapshotOf w)))
             (totalAchievementsOf fetched (length (unlockedNames (snapshotOf w)))
                (length (lockedNames (snapshotOf w))))))
       (totalAchievementsOf fetched (length (unlockedNames (snapshotOf w)))
          (length (lockedNames (snapshotOf w))) > 0 \<and>
        length (unlockedNames (snapshotOf w)) =
          totalAchievementsOf fetched (length (unlockedNames (snapshotOf w)))
            (length (lockedNames (snapshotOf w))))"
  using assms snapshotOf_body [OF assms(2)]
  by (simp add: processOneUser_def Let_def)

lemma processOneUser_cases:
  obtains
    (early) e where "processOneUser cfg w st usr = failed e [] st"
  | (nogame) "processOneUser cfg w st usr =
        \<lparr>result = Inr (NoCurrentOrRecentGame (u_name usr)), sent = [], newStore = st\<rparr>"
  | (reach) tgt body s fetched where
      "resolveTargetGame w = Inr (Some tgt)" "playerJson w = Inr body"
      "getState w st (pkOf usr tgt) = Inr s"
      "lazyFetch w (toPost s (nowSec w - windowSecondsOf cfg usr) (snapshotOf w)) = Inr fetched"
proof (cases "resolveTargetGame w")
  case (Inl e)
  then show ?thesis by (intro early [of e]) (simp add: processOneUser_def)
next
  case (Inr t)
  show ?thesis
  proof (cases t)
    case None
    with Inr show ?thesis by (intro nogame) (simp add: processOneUser_def)
  next
    case (Some tgt)
    note tgt = Inr [unfolded Some]
    show ?thesis
    proof (cases "playerJson w")
      case (Inl e)
      with tgt show ?thesis by (intro early [of e]) (simp add: processOneUser_def)
    next
      case body: (Inr body)
      show ?thesis
      proof (cases "getState w st (pkOf usr tgt)")
        case (Inl e)
        with tgt body show ?thesis
          by (intro early [of e]) (simp add: processOneUser_def Let_def)
      next
        case s: (Inr s)
        show ?thesis
        proof (cases "lazyFetch w (toPost s (nowSec w - windowSecondsOf cfg usr) (snapshotOf w))")
          case (Inl e)
          with tgt body s snapshotOf_body [OF body] show ?thesis
            by (intro early [of e]) (simp add: processOneUser_def Let_def)
        next
          case (Inr fetched)
          with tgt body s show ?thesis by (intro reach)
        qed
      qed
    qed
  qed
qed

lemma getState_shape:
  "getState w st pk = Inr s \<Longrightarrow> ddbGet w = None \<and> s = loaded st pk"
  by (auto simp: getState_def split: option.splits)

lemmas size_defs = approxUtf8Bytes_def joined_def member_def optMember_def jsonStringBytes_def
  jsonArrayBytes_def jsonNatBytes_def jsonIntBytes_def jsonBoolBytes_def charBytes_def
  sum_list_replicate digitCount.simps

lemmas run_defs = processOneUser_def resolveTargetGame_def recentlyPlayed_def
  getState_def loaded_def announcedOf_def latchOf_def toPost_def seedAnnounced_def unlockedRecent_def
  unlocked_def unlockedNames_def
  lockedNames_def newSet_def setAdd_def lazyFetch_def getSchemaForApp_def getRarityForApp_def
  titleAfterFetch_def totalAchievementsOf_def percent_def progressTextOf_def
  announceAndPersist_def postDiscordPayload_def platinumStep_def stateItem_def putStateItem_def
  windowSecondsOf_def DEFAULT_WINDOW_def pkOf_def trim_def isWhiteSpace_def failed_def
  applyDdbSizeGuardrail_def trimArrays_def dropAnnounced_def MAX_ITEM_BYTES_def Let_def
  showNat.simps digitChar_def snapshotOf_def pairOf_def numeral_2_eq_2 [symmetric]

lemmas ex_defs = cfg0_def userA_def noStore_def alwaysAccept_def refuseSecond_def exactPct_def
  worldA_def onlyA_def schemaOnlyA_def itemB_def storeB_def

subsection \<open>The size guardrail\<close>

text \<open>
  Claim C3, as the code has it: for every record whose serialized size exceeds
  \<open>MAX_ITEM_BYTES\<close>, the guardrail drops \<^verbatim>\<open>unlockedApiNames\<close>, \<^verbatim>\<open>lockedApiNames\<close> and
  \<^verbatim>\<open>unannouncedUnlockedApiNames\<close> all together, in one step, and measures the record
  once after that; \<^verbatim>\<open>announcedApiNames\<close> is kept exactly when the record fits after
  the three are gone, and is dropped only when it is then still over the budget.
\<close>

theorem guardrail_drops_arrays_together:
  assumes "int (approxUtf8Bytes it) > MAX_ITEM_BYTES cfg"
  shows "g_item (applyDdbSizeGuardrail cfg it) =
           (if int (approxUtf8Bytes (trimArrays (approxUtf8Bytes it) it)) \<le> MAX_ITEM_BYTES cfg
            then trimArrays (approxUtf8Bytes it) it
            else dropAnnounced (trimArrays (approxUtf8Bytes it) it)) \<and>
         unlockedApiNames (g_item (applyDdbSizeGuardrail cfg it)) = None \<and>
         lockedApiNames (g_item (applyDdbSizeGuardrail cfg it)) = None \<and>
         unannouncedUnlockedApiNames (g_item (applyDdbSizeGuardrail cfg it)) = None \<and>
         announcedApiNames (g_item (applyDdbSizeGuardrail cfg it)) =
           (if int (approxUtf8Bytes (trimArrays (approxUtf8Bytes it) it)) \<le> MAX_ITEM_BYTES cfg
            then announcedApiNames it else None) \<and>
         g_truncated (applyDdbSizeGuardrail cfg it) \<and>
         g_bytes (applyDdbSizeGuardrail cfg it) = approxUtf8Bytes (g_item (applyDdbSizeGuardrail cfg it))"
  using assms by (simp add: applyDdbSizeGuardrail_def Let_def trimArrays_def dropAnnounced_def)



text \<open>An instance: the 620 kB item fits once the three arrays are gone.\<close>

theorem guardrail_drops_arrays_together_witness:
  "MAX_ITEM_BYTES cfg0 < int (approxUtf8Bytes bigItem) \<and>
   g_item (applyDdbSizeGuardrail cfg0 bigItem) = trimArrays (approxUtf8Bytes bigItem) bigItem \<and>
   announcedApiNames (g_item (applyDdbSizeGuardrail cfg0 bigItem)) =
     Some [''ACHIEVEMENT_WITH_A_LONG_NAME'']"
proof -
  have over: "MAX_ITEM_BYTES cfg0 < int (approxUtf8Bytes bigItem)"
    by (simp add: bigItem_def size_defs MAX_ITEM_BYTES_def cfg0_def)
  have fits: "int (approxUtf8Bytes (trimArrays (approxUtf8Bytes bigItem) bigItem)) \<le> MAX_ITEM_BYTES cfg0"
    by (simp add: bigItem_def trimArrays_def size_defs MAX_ITEM_BYTES_def cfg0_def)
  have ann: "announcedApiNames bigItem = Some [''ACHIEVEMENT_WITH_A_LONG_NAME'']"
    by (simp add: bigItem_def)
  from guardrail_drops_arrays_together [OF over] fits ann over show ?thesis
    by (simp add: trimArrays_def)
qed

text \<open>
  Dropping \<^verbatim>\<open>unlockedApiNames\<close> alone already brings the same item under the budget,
  and still \<^verbatim>\<open>lockedApiNames\<close> is not retained.
\<close>

theorem guardrail_stops_at_prefix_counterexample:
  "MAX_ITEM_BYTES cfg0 < int (approxUtf8Bytes bigItem) \<and>
   int (approxUtf8Bytes (bigItem\<lparr>unlockedApiNames := None\<rparr>)) \<le> MAX_ITEM_BYTES cfg0 \<and>
   lockedApiNames bigItem = Some [''D''] \<and>
   lockedApiNames (g_item (applyDdbSizeGuardrail cfg0 bigItem)) = None"
  by (simp add: applyDdbSizeGuardrail_def Let_def trimArrays_def dropAnnounced_def bigItem_def
        size_defs MAX_ITEM_BYTES_def cfg0_def)

subsection \<open>A failed run\<close>

lemma run_failed_store:
  "result (processOneUser cfg w st usr) = Inl e \<Longrightarrow> newStore (processOneUser cfg w st usr) = st"
proof (cases rule: processOneUser_cases [of cfg w st usr])
  case (early e')
  then show ?thesis by (simp add: failed_def)
next
  case nogame
  then show ?thesis by simp
next
  case (reach tgt body s fetched)
  assume "result (processOneUser cfg w st usr) = Inl e"
  then show ?thesis
    unfolding processOneUser_unfold [OF reach] by (rule ap_fail)
qed

lemma run_sent_after_fetches:
  assumes ne: "sent (processOneUser cfg w st usr) \<noteq> []"
  shows "\<not> isl (resolveTargetGame w) \<and> \<not> isl (playerJson w) \<and> ddbGet w = None \<and>
         \<not> isl (getSchemaForApp w) \<and> getRarityForApp w = None"
proof (cases rule: processOneUser_cases [of cfg w st usr])
  case (early e)
  with ne show ?thesis by (simp add: failed_def)
next
  case nogame
  with ne show ?thesis by simp
next
  case (reach tgt body s fetched)
  note eq = processOneUser_unfold [OF reach]
  obtain k c where kc: "sent (processOneUser cfg w st usr) =
      map AchievementEmbed (take k (toPost s (nowSec w - windowSecondsOf cfg usr) (snapshotOf w))) @ c"
    "c = [] \<or> toPost s (nowSec w - windowSecondsOf cfg usr) (snapshotOf w) \<noteq> []"
    unfolding eq using ap_sent by blast
  with ne have "toPost s (nowSec w - windowSecondsOf cfg usr) (snapshotOf w) \<noteq> []"
    by auto
  with reach(4) have "\<not> isl (getSchemaForApp w) \<and> getRarityForApp w = None"
    by (auto simp: lazyFetch_def split: sum.splits option.splits)
  then show ?thesis
    using getState_shape [OF reach(3)] reach(1,2) by simp
qed

text \<open>
  Claim C4, as the code has it: a run that fails (any step throws) performs no write
  to the state table, so the pair's persisted state stays exactly as it was loaded;
  and a notification is sent only after game selection, the snapshot fetch, the state
  load and the schema and rarity fetches have succeeded, so a failure of any of
  those sends nothing. (Notifications accepted before a later step fails stay sent.)
\<close>

theorem failed_run_writes_nothing:
  "(result (processOneUser cfg w st usr) = Inl e \<longrightarrow> newStore (processOneUser cfg w st usr) = st) \<and>
   (sent (processOneUser cfg w st usr) \<noteq> [] \<longrightarrow>
      \<not> isl (resolveTargetGame w) \<and> \<not> isl (playerJson w) \<and> ddbGet w = None \<and>
      \<not> isl (getSchemaForApp w) \<and> getRarityForApp w = None)"
  using run_failed_store [of cfg w st usr e] run_sent_after_fetches [of cfg w st usr]
  by blast

text \<open>
  Two achievements are due, the webhook accepts the first embed and refuses the
  second: the run fails, nothing is written, and the first notification is out.
\<close>

lemma run_refuseSecond:
  "processOneUser cfg0 (worldA\<lparr>nowSec := 1700000899, webhook := refuseSecond\<rparr>) noStore userA =
     \<lparr>result = Inl (DiscordWebhookError 500 ''down''),
      sent = [AchievementEmbed \<lparr>apiname = ''A'', unlocktime = 1700000000\<rparr>],
      newStore = noStore\<rparr>"
  by (simp add: run_defs size_defs ex_defs)

theorem failed_run_writes_nothing_witness:
  "result (processOneUser cfg0 (worldA\<lparr>nowSec := 1700000899, webhook := refuseSecond\<rparr>) noStore userA)
     = Inl (DiscordWebhookError 500 ''down'') \<and>
   sent (processOneUser cfg0 (worldA\<lparr>nowSec := 1700000899, webhook := refuseSecond\<rparr>) noStore userA) \<noteq> [] \<and>
   newStore (processOneUser cfg0 (worldA\<lparr>nowSec := 1700000899, webhook := refuseSecond\<rparr>) noStore userA)
     = noStore \<and>
   ddbGet (worldA\<lparr>nowSec := 1700000899, webhook := refuseSecond\<rparr>) = None"
  using failed_run_writes_nothing
    [of cfg0 "worldA\<lparr>nowSec := 1700000899, webhook := refuseSecond\<rparr>" noStore userA
        "DiscordWebhookError 500 ''down''"]
  by (simp add: run_refuseSecond)

theorem failed_run_keeps_sent_counterexample:
  "result (processOneUser cfg0 (worldA\<lparr>nowSec := 1700000899, webhook := refuseSecond\<rparr>) noStore userA)
     = Inl (DiscordWebhookError 500 ''down'') \<and>
   sent (processOneUser cfg0 (worldA\<lparr>nowSec := 1700000899, webhook := refuseSecond\<rparr>) noStore userA)
     = [AchievementEmbed \<lparr>apiname = ''A'', unlocktime = 1700000000\<rparr>]"
  by (simp add: run_refuseSecond)

subsection \<open>What a run does\<close>

lemma embedsOf_embeds [simp]: "embedsOf (map AchievementEmbed xs) = xs"
  by (induction xs) auto

lemma embedsOf_append [simp]: "embedsOf (xs @ ys) = embedsOf xs @ embedsOf ys"
  by (induction xs rule: embedsOf.induct) auto

lemma list_ex_embeds [simp]: "\<not> list_ex isCongrats (map AchievementEmbed xs)"
  by (induction xs) auto

lemma pairOf_Some:
  "pairOf w usr = Some pk \<longleftrightarrow> (\<exists>tgt. resolveTargetGame w = Inr (Some tgt) \<and> pk = pkOf usr tgt)"
  by (auto simp: pairOf_def split: sum.splits option.splits)

lemma lazyFetch_shape:
  "lazyFetch w posts = Inr fetched \<Longrightarrow>
     (posts = [] \<longrightarrow> fetched = None) \<and>
     (posts \<noteq> [] \<longrightarrow> (\<exists>sch. getSchemaForApp w = Inr sch \<and> fetched = Some sch))"
  by (auto simp: lazyFetch_def split: if_splits sum.splits option.splits)

text \<open>A run that settles with a value: what it sent, what it wrote, what it returned.\<close>

lemma processOneUser_ok:
  assumes ok: "result (processOneUser cfg w st usr) = Inr (Processed r)"
  obtains tgt fetched where
    "resolveTargetGame w = Inr (Some tgt)"
    "lazyFetch w (toPost (loaded st (pkOf usr tgt)) (nowSec w - windowSecondsOf cfg usr) (snapshotOf w))
       = Inr fetched"
    "r_posted r = length (toPost (loaded st (pkOf usr tgt)) (nowSec w - windowSecondsOf cfg usr) (snapshotOf w))"
    "r_platinum r =
       (totalAchievementsOf fetched (length (unlockedNames (snapshotOf w)))
          (length (lockedNames (snapshotOf w))) > 0 \<and>
        length (unlockedNames (snapshotOf w)) =
          totalAchievementsOf fetched (length (unlockedNames (snapshotOf w)))
            (length (lockedNames (snapshotOf w))))"
    "sent (processOneUser cfg w st usr) =
       map AchievementEmbed
         (toPost (loaded st (pkOf usr tgt)) (nowSec w - windowSecondsOf cfg usr) (snapshotOf w)) @
       (if 0 < r_posted r \<and> r_platinum r \<and> \<not> latchOf (st (pkOf usr tgt))
        then [PlatinumCongrats (r_gameTitle r)] else [])"
    "\<exists>title totalAch progress.
       newStore (processOneUser cfg w st usr) =
         st(pkOf usr tgt \<mapsto> g_item (applyDdbSizeGuardrail cfg
              (stateItem w usr tgt (snapshotOf w) title totalAch progress
                 (foldl setAdd (seedAnnounced (loaded st (pkOf usr tgt)) (snapshotOf w))
                    (map apiname (toPost (loaded st (pkOf usr tgt))
                       (nowSec w - windowSecondsOf cfg usr) (snapshotOf w))))
                 (latchOf (st (pkOf usr tgt)) \<or> (0 < r_posted r \<and> r_platinum r)))))"
proof (cases rule: processOneUser_cases [of cfg w st usr])
  case (early e)
  with ok show ?thesis by (simp add: failed_def)
next
  case nogame
  with ok show ?thesis by simp
next
  case (reach tgt body s fetched)
  from getState_shape [OF reach(3)] have s: "s = loaded st (pkOf usr tgt)" by simp
  define posts where
    "posts = toPost (loaded st (pkOf usr tgt)) (nowSec w - windowSecondsOf cfg usr) (snapshotOf w)"
  define title where "title = titleAfterFetch (t_gameTitle tgt) fetched"
  define totalAch where
    "totalAch = totalAchievementsOf fetched (length (unlockedNames (snapshotOf w)))
                  (length (lockedNames (snapshotOf w)))"
  define progress where
    "progress = progressTextOf (length (unlockedNames (snapshotOf w))) totalAch
                  (percent w (length (unlockedNames (snapshotOf w))) totalAch)"
  define plat where
    "plat = (totalAch > 0 \<and> length (unlockedNames (snapshotOf w)) = totalAch)"
  have eq: "processOneUser cfg w st usr =
      announceAndPersist cfg w st usr tgt (snapshotOf w) s posts title totalAch progress plat"
    unfolding processOneUser_unfold [OF reach] posts_def title_def totalAch_def progress_def plat_def s
    by (rule refl)
  note facts = ap_ok [OF ok [unfolded eq]]
  have latch: "st_platinumAnnounced s = latchOf (st (pkOf usr tgt))"
    by (simp add: s loaded_def)
  have p: "r_posted r = length posts" and q: "r_platinum r = plat" and t: "r_gameTitle r = title"
    using facts(3) by simp_all
  have ne: "(posts \<noteq> []) = (0 < r_posted r)"
    using p by simp
  show ?thesis
  proof (rule that [of tgt fetched])
    show "resolveTargetGame w = Inr (Some tgt)" by fact
    show "lazyFetch w (toPost (loaded st (pkOf usr tgt)) (nowSec w - windowSecondsOf cfg usr) (snapshotOf w))
       = Inr fetched" using reach(4) s by simp
    show "r_posted r = length (toPost (loaded st (pkOf usr tgt)) (nowSec w - windowSecondsOf cfg usr) (snapshotOf w))"
      using p by (simp add: posts_def)
    show "r_platinum r =
       (totalAchievementsOf fetched (length (unlockedNames (snapshotOf w)))
          (length (lockedNames (snapshotOf w))) > 0 \<and>
        length (unlockedNames (snapshotOf w)) =
          totalAchievementsOf fetched (length (unlockedNames (snapshotOf w)))
            (length (lockedNames (snapshotOf w))))"
      using q by (simp add: plat_def totalAch_def)
    have "sent (processOneUser cfg w st usr) =
       map AchievementEmbed posts @
       (if 0 < r_posted r \<and> r_platinum r \<and> \<not> latchOf (st (pkOf usr tgt))
        then [PlatinumCongrats (r_gameTitle r)] else [])"
      using facts(1) ne latch t q eq by simp
    then show "sent (processOneUser cfg w st usr) =
       map AchievementEmbed
         (toPost (loaded st (pkOf usr tgt)) (nowSec w - windowSecondsOf cfg usr) (snapshotOf w)) @
       (if 0 < r_posted r \<and> r_platinum r \<and> \<not> latchOf (st (pkOf usr tgt))
        then [PlatinumCongrats (r_gameTitle r)] else [])"
      by (simp only: posts_def)
    have "newStore (processOneUser cfg w st usr) =
         st(pkOf usr tgt \<mapsto> g_item (applyDdbSizeGuardrail cfg
              (stateItem w usr tgt (snapshotOf w) title totalAch progress
                 (foldl setAdd (seedAnnounced (loaded st (pkOf usr tgt)) (snapshotOf w))
                    (map apiname posts))
                 (latchOf (st (pkOf usr tgt)) \<or> (0 < r_posted r \<and> r_platinum r)))))"
      using facts(2) ne latch q s eq by simp
    then show "\<exists>title totalAch progress.
       newStore (processOneUser cfg w st usr) =
         st(pkOf usr tgt \<mapsto> g_item (applyDdbSizeGuardrail cfg
              (stateItem w usr tgt (snapshotOf w) title totalAch progress
                 (foldl setAdd (seedAnnounced (loaded st (pkOf usr tgt)) (snapshotOf w))
                    (map apiname (toPost (loaded st (pkOf usr tgt))
                       (nowSec w - windowSecondsOf cfg usr) (snapshotOf w))))
                 (latchOf (st (pkOf usr tgt)) \<or> (0 < r_posted r \<and> r_platinum r)))))"
      unfolding posts_def by blast
  qed
qed

text \<open>Any run: it sends a prefix of what is due, and the celebration only behind all of it.\<close>

lemma processOneUser_sent:
  obtains (nothing) "sent (processOneUser cfg w st usr) = []"
  | (some) tgt k c where
      "resolveTargetGame w = Inr (Some tgt)"
      "sent (processOneUser cfg w st usr) =
         map AchievementEmbed (take k
           (toPost (loaded st (pkOf usr tgt)) (nowSec w - windowSecondsOf cfg usr) (snapshotOf w))) @ c"
      "c = [] \<or>
       (\<exists>title. c = [PlatinumCongrats title]) \<and> \<not> latchOf (st (pkOf usr tgt)) \<and>
       toPost (loaded st (pkOf usr tgt)) (nowSec w - windowSecondsOf cfg usr) (snapshotOf w) \<noteq> []"
proof (cases rule: processOneUser_cases [of cfg w st usr])
  case (early e)
  then have "sent (processOneUser cfg w st usr) = []" by (simp add: failed_def)
  then show ?thesis by (rule nothing)
next
  case nogame
  then have "sent (processOneUser cfg w st usr) = []" by simp
  then show ?thesis by (rule nothing)
next
  case (reach tgt body s fetched)
  from getState_shape [OF reach(3)] have s: "s = loaded st (pkOf usr tgt)" by simp
  note eq = processOneUser_unfold [OF reach]
  obtain k c where kc: "sent (processOneUser cfg w st usr) =
        map AchievementEmbed (take k (toPost s (nowSec w - windowSecondsOf cfg usr) (snapshotOf w))) @ c"
      "c = [] \<or> (\<exists>title. c = [PlatinumCongrats title]) \<and> \<not> st_platinumAnnounced s \<and>
         toPost s (nowSec w - windowSecondsOf cfg usr) (snapshotOf w) \<noteq> []"
    unfolding eq using ap_sent by blast
  show ?thesis
    by (rule some [of tgt k c]) (use reach(1) kc s in \<open>simp_all add: loaded_def\<close>)
qed

text \<open>Any run: the table is untouched, or the run's own pair got a new item.\<close>

lemma processOneUser_store:
  obtains (same) "newStore (processOneUser cfg w st usr) = st"
  | (saved) tgt r it where
      "resolveTargetGame w = Inr (Some tgt)"
      "result (processOneUser cfg w st usr) = Inr (Processed r)"
      "newStore (processOneUser cfg w st usr) = st(pkOf usr tgt \<mapsto> it)"
proof (cases "result (processOneUser cfg w st usr)")
  case (Inl e)
  then have "newStore (processOneUser cfg w st usr) = st" by (rule run_failed_store)
  then show ?thesis by (rule same)
next
  case (Inr v)
  show ?thesis
  proof (cases v)
    case (NoCurrentOrRecentGame n)
    have "newStore (processOneUser cfg w st usr) = st"
    proof (cases rule: processOneUser_cases [of cfg w st usr])
      case (early e)
      then show ?thesis by (simp add: failed_def)
    next
      case nogame
      then show ?thesis by simp
    next
      case (reach tgt body s fetched)
      obtain r where "v = Processed r"
        using Inr [unfolded processOneUser_unfold [OF reach]]
        by (auto simp: announceAndPersist_def failed_def split: prod.splits option.splits sum.splits)
      with NoCurrentOrRecentGame show ?thesis by simp
    qed
    then show ?thesis by (rule same)
  next
    case (Processed r)
    with Inr have ok: "result (processOneUser cfg w st usr) = Inr (Processed r)" by simp
    from processOneUser_ok [OF ok] obtain tgt where
      "resolveTargetGame w = Inr (Some tgt)"
      "\<exists>it. newStore (processOneUser cfg w st usr) = st(pkOf usr tgt \<mapsto> it)"
      by metis
    with ok show ?thesis using saved by blast
  qed
qed

subsection \<open>What a run of the second file does\<close>

text \<open>
  The same three facts for \<^verbatim>\<open>processOneUser\<close> of \<^verbatim>\<open>src/unnamed/part_000\<close>, which reaches
  the shared steps 5 to 7 after the schema fetch, the snapshot fetch and the state load.
\<close>

lemma part000_unfold:
  assumes "resolveTargetGame w = Inr (Some tgt)"
    and "getSchemaForApp w = Inr sch"
    and "playerJson w = Inr body"
    and "getState w st (pkOf usr tgt) = Inr s"
  shows "processOneUser_part000 cfg w st usr =
     announceAndPersist cfg w st usr tgt (snapshotOf w) s
       (toPost s (nowSec w - windowSecondsOf cfg usr) (snapshotOf w))
       (titleEager tgt sch)
       (totalCount sch)
       (progressTextOf (length (unlockedNames (snapshotOf w))) (totalCount sch)
          (percent w (length (unlockedNames (snapshotOf w))) (totalCount sch)))
       (totalCount sch > 0 \<and> length (unlockedNames (snapshotOf w)) = totalCount sch)"
  using assms snapshotOf_body [OF assms(3)]
  by (simp add: processOneUser_part000_def Let_def)

lemma part000_cases:
  obtains
    (early) e where "processOneUser_part000 cfg w st usr = failed e [] st"
  | (nogame) "processOneUser_part000 cfg w st usr =
        \<lparr>result = Inr (NoCurrentOrRecentGame (u_name usr)), sent = [], newStore = st\<rparr>"
  | (reach) tgt sch body s where
      "resolveTargetGame w = Inr (Some tgt)" "getSchemaForApp w = Inr sch"
      "playerJson w = Inr body" "getState w st (pkOf usr tgt) = Inr s"
proof (cases "resolveTargetGame w")
  case (Inl e)
  then show ?thesis by (intro early [of e]) (simp add: processOneUser_part000_def)
next
  case (Inr t)
  show ?thesis
  proof (cases t)
    case None
    with Inr show ?thesis by (intro nogame) (simp add: processOneUser_part000_def)
  next
    case (Some tgt)
    note tgt = Inr [unfolded Some]
    show ?thesis
    proof (cases "getSchemaForApp w")
      case (Inl e)
      with tgt show ?thesis by (intro early [of e]) (simp add: processOneUser_part000_def)
    next
      case sch: (Inr sch)
      show ?thesis
      proof (cases "playerJson w")
        case (Inl e)
        with tgt sch show ?thesis
          by (intro early [of e]) (simp add: processOneUser_part000_def)
      next
        case body: (Inr body)
        show ?thesis
        proof (cases "getState w st (pkOf usr tgt)")
          case (Inl e)
          with tgt sch body show ?thesis
            by (intro early [of e]) (simp add: processOneUser_part000_def Let_def)
        next
          case (Inr s)
          with tgt sch body show ?thesis by (intro reach)
        qed
      qed
    qed
  qed
qed

lemma part000_run_ok:
  assumes ok: "result (processOneUser_part000 cfg w st usr) = Inr (Processed r)"
  obtains tgt sch where
    "resolveTargetGame w = Inr (Some tgt)"
    "getSchemaForApp w = Inr sch"
    "r_posted r = length (toPost (loaded st (pkOf usr tgt)) (nowSec w - windowSecondsOf cfg usr) (snapshotOf w))"
    "r_platinum r =
       (totalCount sch > 0 \<and> length (unlockedNames (snapshotOf w)) = totalCount sch)"
    "sent (processOneUser_part000 cfg w st usr) =
       map AchievementEmbed
         (toPost (loaded st (pkOf usr tgt)) (nowSec w - windowSecondsOf cfg usr) (snapshotOf w)) @
       (if 0 < r_posted r \<and> r_platinum r \<and> \<not> latchOf (st (pkOf usr tgt))
        then [PlatinumCongrats (r_gameTitle r)] else [])"
    "\<exists>title totalAch progress.
       newStore (processOneUser_part000 cfg w st usr) =
         st(pkOf usr tgt \<mapsto> g_item (applyDdbSizeGuardrail cfg
              (stateItem w usr tgt (snapshotOf w) title totalAch progress
                 (foldl setAdd (seedAnnounced (loaded st (pkOf usr tgt)) (snapshotOf w))
                    (map apiname (toPost (loaded st (pkOf usr tgt))
                       (nowSec w - windowSecondsOf cfg usr) (snapshotOf w))))
                 (latchOf (st (pkOf usr tgt)) \<or> (0 < r_posted r \<and> r_platinum r)))))"
proof (cases rule: part000_cases [of cfg w st usr])
  case (early e)
  with ok show ?thesis by (simp add: failed_def)
next
  case nogame
  with ok show ?thesis by simp
next
  case (reach tgt sch body s)
  from getState_shape [OF reach(4)] have s: "s = loaded st (pkOf usr tgt)" by simp
  define posts where
    "posts = toPost (loaded st (pkOf usr tgt)) (nowSec w - windowSecondsOf cfg usr) (snapshotOf w)"
  define title where "title = titleEager tgt sch"
  define totalAch where "totalAch = totalCount sch"
  define progress where
    "progress = progressTextOf (length (unlockedNames (snapshotOf w))) totalAch
                  (percent w (length (unlockedNames (snapshotOf w))) totalAch)"
  define plat where
    "plat = (totalAch > 0 \<and> length (unlockedNames (snapshotOf w)) = totalAch)"
  have eq: "processOneUser_part000 cfg w st usr =
      announceAndPersist cfg w st usr tgt (snapshotOf w) s posts title totalAch progress plat"
    unfolding part000_unfold [OF reach] posts_def title_def totalAch_def progress_def plat_def s
    by (rule refl)
  note facts = ap_ok [OF ok [unfolded eq]]
  have latch: "st_platinumAnnounced s = latchOf (st (pkOf usr tgt))"
    by (simp add: s loaded_def)
  have p: "r_posted r = length posts" and q: "r_platinum r = plat" and t: "r_gameTitle r = title"
    using facts(3) by simp_all
  have ne: "(posts \<noteq> []) = (0 < r_posted r)"
    using p by simp
  show ?thesis
  proof (rule that [of tgt sch])
    show "resolveTargetGame w = Inr (Some tgt)" by fact
    show "getSchemaForApp w = Inr sch" by fact
    show "r_posted r = length (toPost (loaded st (pkOf usr tgt)) (nowSec w - windowSecondsOf cfg usr) (snapshotOf w))"
      using p by (simp add: posts_def)
    show "r_platinum r =
       (totalCount sch > 0 \<and> length (unlockedNames (snapshotOf w)) = totalCount sch)"
      using q by (simp add: plat_def totalAch_def)
    have "sent (processOneUser_part000 cfg w st usr) =
       map AchievementEmbed posts @
       (if 0 < r_posted r \<and> r_platinum r \<and> \<not> latchOf (st (pkOf usr tgt))
        then [PlatinumCongrats (r_gameTitle r)] else [])"
      using facts(1) ne latch t q eq by simp
    then show "sent (processOneUser_part000 cfg w st usr) =
       map AchievementEmbed
         (toPost (loaded st (pkOf usr tgt)) (nowSec w - windowSecondsOf cfg usr) (snapshotOf w)) @
       (if 0 < r_posted r \<and> r_platinum r \<and> \<not> latchOf (st (pkOf usr tgt))
        then [PlatinumCongrats (r_gameTitle r)] else [])"
      by (simp only: posts_def)
    have "newStore (processOneUser_part000 cfg w st usr) =
         st(pkOf usr tgt \<mapsto> g_item (applyDdbSizeGuardrail cfg
              (stateItem w usr tgt (snapshotOf w) title totalAch progress
                 (foldl setAdd (seedAnnounced (loaded st (pkOf usr tgt)) (snapshotOf w))
                    (map apiname posts))
                 (latchOf (st (pkOf usr tgt)) \<or> (0 < r_posted r \<and> r_platinum r)))))"
      using facts(2) ne latch q s eq by simp
    then show "\<exists>title totalAch progress.
       newStore (processOneUser_part000 cfg w st usr) =
         st(pkOf usr tgt \<mapsto> g_item (applyDdbSizeGuardrail cfg
              (stateItem w usr tgt (snapshotOf w) title totalAch progress
                 (foldl setAdd (seedAnnounced (loaded st (pkOf usr tgt)) (snapshotOf w))
                    (map apiname (toPost (loaded st (pkOf usr tgt))
                       (nowSec w - windowSecondsOf cfg usr) (snapshotOf w))))
                 (latchOf (st (pkOf usr tgt)) \<or> (0 < r_posted r \<and> r_platinum r)))))"
      unfolding posts_def by blast
  qed
qed

lemma part000_sent:
  obtains (nothing) "sent (processOneUser_part000 cfg w st usr) = []"
  | (some) tgt k c where
      "resolveTargetGame w = Inr (Some tgt)"
      "sent (processOneUser_part000 cfg w st usr) =
         map AchievementEmbed (take k
           (toPost (loaded st (pkOf usr tgt)) (nowSec w - windowSecondsOf cfg usr) (snapshotOf w))) @ c"
      "c = [] \<or>
       (\<exists>title. c = [PlatinumCongrats title]) \<and> \<not> latchOf (st (pkOf usr tgt)) \<and>
       toPost (loaded st (pkOf usr tgt)) (nowSec w - windowSecondsOf cfg usr) (snapshotOf w) \<noteq> []"
proof (cases rule: part000_cases [of cfg w st usr])
  case (early e)
  then have "sent (processOneUser_part000 cfg w st usr) = []" by (simp add: failed_def)
  then show ?thesis by (rule nothing)
next
  case nogame
  then have "sent (processOneUser_part000 cfg w st usr) = []" by simp
  then show ?thesis by (rule nothing)
next
  case (reach tgt sch body s)
  from getState_shape [OF reach(4)] have s: "s = loaded st (pkOf usr tgt)" by simp
  note eq = part000_unfold [OF reach]
  obtain k c where kc: "sent (processOneUser_part000 cfg w st usr) =
        map AchievementEmbed (take k (toPost s (nowSec w - windowSecondsOf cfg usr) (snapshotOf w))) @ c"
      "c = [] \<or> (\<exists>title. c = [PlatinumCongrats title]) \<and> \<not> st_platinumAnnounced s \<and>
         toPost s (nowSec w - windowSecondsOf cfg usr) (snapshotOf w) \<noteq> []"
    unfolding eq using ap_sent by blast
  show ?thesis
    by (rule some [of tgt k c]) (use reach(1) kc s in \<open>simp_all add: loaded_def\<close>)
qed



subsection \<open>Recency\<close>

lemma set_unlockedRecent:
  "set (unlockedRecent cutoff pa) =
     {e \<in> set (unlocked pa). 0 < unlocktime e \<and> cutoff \<le> unlocktime e}"
  by (auto simp: unlockedRecent_def)

lemma set_toPost: "set (toPost s cutoff pa) \<subseteq> set (unlockedRecent cutoff pa)"
  by (auto simp: toPost_def)

lemma announced_are_recent:
  "\<forall>e \<in> set (embedsOf (sent (processOneUser cfg w st usr))).
      e \<in> set (unlockedRecent (nowSec w - windowSecondsOf cfg usr) (snapshotOf w)) \<and>
      unlocktime e \<noteq> 0"
proof (cases rule: processOneUser_sent [of cfg w st usr])
  case nothing
  then show ?thesis by simp
next
  case (some tgt k c)
  from some(3) have "embedsOf c = []" by auto
  with some(2) have "set (embedsOf (sent (processOneUser cfg w st usr))) \<subseteq>
      set (toPost (loaded st (pkOf usr tgt)) (nowSec w - windowSecondsOf cfg usr) (snapshotOf w))"
    by (auto dest: in_set_takeD)
  with set_toPost show ?thesis
    by (fastforce simp: set_unlockedRecent)
qed

lemma announced_are_recent_part000:
  "\<forall>e \<in> set (embedsOf (sent (processOneUser_part000 cfg w st usr))).
      e \<in> set (unlockedRecent (nowSec w - windowSecondsOf cfg usr) (snapshotOf w)) \<and>
      unlocktime e \<noteq> 0"
proof (cases rule: part000_sent [of cfg w st usr])
  case nothing
  then show ?thesis by simp
next
  case (some tgt k c)
  from some(3) have "embedsOf c = []" by auto
  with some(2) have "set (embedsOf (sent (processOneUser_part000 cfg w st usr))) \<subseteq>
      set (toPost (loaded st (pkOf usr tgt)) (nowSec w - windowSecondsOf cfg usr) (snapshotOf w))"
    by (auto dest: in_set_takeD)
  with set_toPost show ?thesis
    by (fastforce simp: set_unlockedRecent)
qed

text \<open>
  Claim C10, as the code has it: an item of the snapshot is a member of
  \<^verbatim>\<open>unlockedRecent\<close> exactly when it is unlocked (\<^verbatim>\<open>achieved\<close> is 1), its unlock time is
  strictly positive and at least \<open>nowSec - windowSeconds\<close>; so an unlocked item with
  time \<open>now - window\<close> is in and one with \<open>now - window - 1\<close> is out, and a locked item is
  never a member, whatever its time stamp. In both source files every achievement a
  run announces is such a member; in particular an unlocked item whose unlock time is
  0 (or missing) is never announced.
\<close>

theorem recency_eligibility:
  "(\<lparr>apiname = n, unlocktime = t\<rparr> \<in> set (unlockedRecent (now - win) pa) \<longleftrightarrow>
      (\<exists>a \<in> set pa. pa_achieved a = 1 \<and> pa_apiname a = n \<and>
                     (case pa_unlocktime a of None \<Rightarrow> 0 | Some u \<Rightarrow> u) = t) \<and>
      0 < t \<and> now - win \<le> t) \<and>
   (\<forall>e \<in> set (embedsOf (sent (processOneUser cfg w st usr))).
      e \<in> set (unlockedRecent (nowSec w - windowSecondsOf cfg usr) (snapshotOf w)) \<and>
      unlocktime e \<noteq> 0) \<and>
   (\<forall>e \<in> set (embedsOf (sent (processOneUser_part000 cfg w st usr))).
      e \<in> set (unlockedRecent (nowSec w - windowSecondsOf cfg usr) (snapshotOf w)) \<and>
      unlocktime e \<noteq> 0)"
proof (intro conjI)
  show "\<lparr>apiname = n, unlocktime = t\<rparr> \<in> set (unlockedRecent (now - win) pa) \<longleftrightarrow>
      (\<exists>a \<in> set pa. pa_achieved a = 1 \<and> pa_apiname a = n \<and>
                     (case pa_unlocktime a of None \<Rightarrow> 0 | Some u \<Rightarrow> u) = t) \<and>
      0 < t \<and> now - win \<le> t"
    by (auto simp: set_unlockedRecent set_unlocked)
  show "\<forall>e \<in> set (embedsOf (sent (processOneUser cfg w st usr))).
      e \<in> set (unlockedRecent (nowSec w - windowSecondsOf cfg usr) (snapshotOf w)) \<and>
      unlocktime e \<noteq> 0"
    by (rule announced_are_recent)
  show "\<forall>e \<in> set (embedsOf (sent (processOneUser_part000 cfg w st usr))).
      e \<in> set (unlockedRecent (nowSec w - windowSecondsOf cfg usr) (snapshotOf w)) \<and>
      unlocktime e \<noteq> 0"
    by (rule announced_are_recent_part000)
qed

lemma run_worldA_bootstrap:
  "processOneUser cfg0 worldA noStore userA =
     \<lparr>result = Inr (Processed
         \<lparr>r_name = ''Ricky'', r_posted = 1, r_appid = ''440'', r_gameTitle = ''TF2'',
          r_progressText = ''3/4 (75%)'', r_platinum = False\<rparr>),
      sent = [AchievementEmbed \<lparr>apiname = ''A'', unlocktime = 1700000000\<rparr>],
      newStore = noStore(''steam#7656#app#440'' \<mapsto>
        \<lparr>PK = ''steam#7656#app#440'', userName = ''Ricky'', steamId = ''7656'', appid = ''440'',
         gameTitle = ''TF2'', totalAchievements = 4, unlockedCount = 3, lockedCount = 1,
         progressText = ''3/4 (75%)'',
         unlockedApiNames = Some [''A'', ''B'', ''C''],
         lockedApiNames = Some [''D''],
         announcedApiNames = Some [''A'', ''B'', ''C''],
         unannouncedUnlockedApiNames = Some [],
         platinumAnnounced = False, updatedAt = 1700000900,
         arraysTruncated = None, approxBytesBeforeTruncate = None, announcedDropped = None,
         announced = None\<rparr>)\<rparr>"
  by (simp add: run_defs size_defs ex_defs)

lemma run_worldA_bootstrap_part000:
  "processOneUser_part000 cfg0 worldA noStore userA =
     \<lparr>result = Inr (Processed
         \<lparr>r_name = ''Ricky'', r_posted = 1, r_appid = ''440'', r_gameTitle = ''TF2'',
          r_progressText = ''3/4 (75%)'', r_platinum = False\<rparr>),
      sent = [AchievementEmbed \<lparr>apiname = ''A'', unlocktime = 1700000000\<rparr>],
      newStore = noStore(''steam#7656#app#440'' \<mapsto>
        \<lparr>PK = ''steam#7656#app#440'', userName = ''Ricky'', steamId = ''7656'', appid = ''440'',
         gameTitle = ''TF2'', totalAchievements = 4, unlockedCount = 3, lockedCount = 1,
         progressText = ''3/4 (75%)'',
         unlockedApiNames = Some [''A'', ''B'', ''C''],
         lockedApiNames = Some [''D''],
         announcedApiNames = Some [''A'', ''B'', ''C''],
         unannouncedUnlockedApiNames = Some [],
         platinumAnnounced = False, updatedAt = 1700000900,
         arraysTruncated = None, approxBytesBeforeTruncate = None, announcedDropped = None,
         announced = None\<rparr>)\<rparr>"
  by (simp add: processOneUser_part000_def titleEager_def run_defs size_defs ex_defs)

lemma snapshot_worldA:
  "snapshotOf worldA =
     [\<lparr>pa_apiname = ''A'', pa_achieved = 1, pa_unlocktime = Some 1700000000\<rparr>,
      \<lparr>pa_apiname = ''B'', pa_achieved = 1, pa_unlocktime = Some 1699999999\<rparr>,
      \<lparr>pa_apiname = ''C'', pa_achieved = 1, pa_unlocktime = None\<rparr>,
      \<lparr>pa_apiname = ''D'', pa_achieved = 0, pa_unlocktime = Some 0\<rparr>]"
  by (simp add: snapshotOf_def worldA_def)

text \<open>
  The poll of \<open>worldA\<close>: A (unlocked at the cutoff) is recent and is announced; B (one
  second older) and C (no time stamp) are not.
\<close>

theorem recency_eligibility_witness:
  "\<lparr>apiname = ''A'', unlocktime = 1700000000\<rparr>
      \<in> set (unlockedRecent (1700000900 - 900) (snapshotOf worldA)) \<and>
   \<lparr>apiname = ''B'', unlocktime = 1699999999\<rparr>
      \<notin> set (unlockedRecent (1700000900 - 900) (snapshotOf worldA)) \<and>
   \<lparr>apiname = ''C'', unlocktime = 0\<rparr>
      \<notin> set (unlockedRecent (1700000900 - 900) (snapshotOf worldA)) \<and>
   embedsOf (sent (processOneUser cfg0 worldA noStore userA)) =
     [\<lparr>apiname = ''A'', unlocktime = 1700000000\<rparr>] \<and>
   embedsOf (sent (processOneUser_part000 cfg0 worldA noStore userA)) =
     [\<lparr>apiname = ''A'', unlocktime = 1700000000\<rparr>]"
  using recency_eligibility [of "''A''" 1700000000 1700000900 900 "snapshotOf worldA"
          cfg0 worldA noStore userA]
        recency_eligibility [of "''B''" 1699999999 1700000900 900 "snapshotOf worldA"
          cfg0 worldA noStore userA]
        recency_eligibility [of "''C''" 0 1700000900 900 "snapshotOf worldA"
          cfg0 worldA noStore userA]
  by (simp add: run_worldA_bootstrap run_worldA_bootstrap_part000 snapshot_worldA)

text \<open>
  A snapshot item with a positive time stamp inside the window that is not unlocked
  (\<^verbatim>\<open>achieved\<close> is 0): it is not a member of \<^verbatim>\<open>unlockedRecent\<close>, and neither file
  announces it.
\<close>

lemma run_lockedInWindow:
  "sent (processOneUser cfg0 (worldA\<lparr>playerJson := Inr (Some lockedInWindow)\<rparr>) noStore userA) = []"
  "sent (processOneUser_part000 cfg0 (worldA\<lparr>playerJson := Inr (Some lockedInWindow)\<rparr>) noStore userA) = []"
  by (simp_all add: processOneUser_part000_def titleEager_def run_defs size_defs ex_defs
        lockedInWindow_def)

theorem locked_item_not_eligible_counterexample:
  "lockedInWindow = [\<lparr>pa_apiname = ''D'', pa_achieved = 0, pa_unlocktime = Some 1700000500\<rparr>] \<and>
   (0 :: int) < 1700000500 \<and>
   nowSec worldA - windowSecondsOf cfg0 userA \<le> 1700000500 \<and>
   \<lparr>apiname = ''D'', unlocktime = 1700000500\<rparr>
      \<notin> set (unlockedRecent (nowSec worldA - windowSecondsOf cfg0 userA) lockedInWindow) \<and>
   sent (processOneUser cfg0 (worldA\<lparr>playerJson := Inr (Some lockedInWindow)\<rparr>) noStore userA) = [] \<and>
   sent (processOneUser_part000 cfg0 (worldA\<lparr>playerJson := Inr (Some lockedInWindow)\<rparr>) noStore userA) = []"
  by (simp add: run_lockedInWindow)
     (simp add: lockedInWindow_def unlockedRecent_def unlocked_def windowSecondsOf_def
        DEFAULT_WINDOW_def cfg0_def userA_def worldA_def)

subsection \<open>The first poll of a pair\<close>


lemma names_unlockedRecent: "set (map apiname (unlockedRecent cutoff pa)) \<subseteq> set (unlockedNames pa)"
  by (auto simp: unlockedRecent_def unlockedNames_def)

lemma stateItem_announced [simp]:
  "announcedApiNames (stateItem w usr tgt pa title totalAch progress aset flag) = Some aset"
  "announced (stateItem w usr tgt pa title totalAch progress aset flag) = None"
  "platinumAnnounced (stateItem w usr tgt pa title totalAch progress aset flag) = flag"
  "unlockedCount (stateItem w usr tgt pa title totalAch progress aset flag) = length (unlockedNames pa)"
  "lockedCount (stateItem w usr tgt pa title totalAch progress aset flag) = length (lockedNames pa)"
  "totalAchievements (stateItem w usr tgt pa title totalAch progress aset flag) = totalAch"
  by (simp_all add: stateItem_def)






subsection \<open>An empty snapshot\<close>

lemma guardrail_counts:
  "unlockedCount (g_item (applyDdbSizeGuardrail cfg it)) = unlockedCount it"
  "lockedCount (g_item (applyDdbSizeGuardrail cfg it)) = lockedCount it"
  "totalAchievements (g_item (applyDdbSizeGuardrail cfg it)) = totalAchievements it"
  using guardrail_cases [of cfg it] by (auto simp: trimArrays_def dropAnnounced_def)

lemma nothing_unlocked [simp]:
  "unlocked [] = []" "unlockedNames [] = []" "lockedNames [] = []"
  "unlockedRecent cutoff [] = []" "toPost s cutoff [] = []"
  by (simp_all add: unlocked_def unlockedNames_def lockedNames_def unlockedRecent_def toPost_def)

text \<open>
  Claim C2, as the code has it: a provider answer that is not \<^verbatim>\<open>ok\<close> is a fetch failure
  that aborts the unit's pipeline (nothing sent, nothing written). A successful answer
  whose achievement list is missing or empty is not a failure: it is handed to the
  diff logic as a snapshot with nothing unlocked and nothing locked, nothing is
  announced, and the record is saved with all three counts at zero.
\<close>

theorem empty_snapshot_is_zero_progress:
  assumes "resolveTargetGame w = Inr (Some tgt)"
    and "snapshotOf w = []"
    and "ddbGet w = None"
    and "ddbPut w = None"
  shows "case playerJson w of
           Inl e \<Rightarrow>
             processOneUser cfg w st usr = \<lparr>result = Inl e, sent = [], newStore = st\<rparr>
         | Inr body \<Rightarrow>
             result (processOneUser cfg w st usr) =
               Inr (Processed \<lparr>r_name = u_name usr, r_posted = 0, r_appid = t_appid tgt,
                                r_gameTitle = t_gameTitle tgt,
                                r_progressText = progressTextOf 0 0 0, r_platinum = False\<rparr>) \<and>
             sent (processOneUser cfg w st usr) = [] \<and>
             (\<exists>it. newStore (processOneUser cfg w st usr) = st(pkOf usr tgt \<mapsto> it) \<and>
                   unlockedCount it = 0 \<and> lockedCount it = 0 \<and> totalAchievements it = 0 \<and>
                   platinumAnnounced it = latchOf (st (pkOf usr tgt)))"
proof (cases "playerJson w")
  case (Inl e)
  with assms(1) show ?thesis
    by (simp add: processOneUser_def failed_def)
next
  case (Inr body)
  have gs: "getState w st (pkOf usr tgt) = Inr (loaded st (pkOf usr tgt))"
    using assms(3) by (simp add: getState_def)
  have lf: "lazyFetch w (toPost (loaded st (pkOf usr tgt)) (nowSec w - windowSecondsOf cfg usr) (snapshotOf w))
      = Inr None"
    using assms(2) by (simp add: lazyFetch_def)
  note eq = processOneUser_unfold [OF assms(1) Inr gs lf]
  have run: "processOneUser cfg w st usr =
      \<lparr>result = Inr (Processed \<lparr>r_name = u_name usr, r_posted = 0, r_appid = t_appid tgt,
                                r_gameTitle = t_gameTitle tgt,
                                r_progressText = progressTextOf 0 0 0, r_platinum = False\<rparr>),
       sent = [],
       newStore = st(pkOf usr tgt \<mapsto> g_item (applyDdbSizeGuardrail cfg
          (stateItem w usr tgt [] (t_gameTitle tgt) 0 (progressTextOf 0 0 0)
             (seedAnnounced (loaded st (pkOf usr tgt)) [])
             (latchOf (st (pkOf usr tgt))))))\<rparr>"
    unfolding eq assms(2)
    by (simp add: announceAndPersist_def platinumStep_def putStateItem_shape assms(4)
          titleAfterFetch_def totalAchievementsOf_def percent_def loaded_def stateItem_def)
  have "\<exists>it. newStore (processOneUser cfg w st usr) = st(pkOf usr tgt \<mapsto> it) \<and>
            unlockedCount it = 0 \<and> lockedCount it = 0 \<and> totalAchievements it = 0 \<and>
            platinumAnnounced it = latchOf (st (pkOf usr tgt))"
    unfolding run
    by (intro exI [of _ "g_item (applyDdbSizeGuardrail cfg
          (stateItem w usr tgt [] (t_gameTitle tgt) 0 (progressTextOf 0 0 0)
             (seedAnnounced (loaded st (pkOf usr tgt)) [])
             (latchOf (st (pkOf usr tgt)))))"])
       (simp add: guardrail_counts guardrail_platinum)
  then show ?thesis
    unfolding Inr by (simp add: run)
qed

lemma run_missing_list:
  "processOneUser cfg0 (worldA\<lparr>playerJson := Inr None\<rparr>) storeB userA =
     \<lparr>result = Inr (Processed
         \<lparr>r_name = ''Ricky'', r_posted = 0, r_appid = ''440'', r_gameTitle = ''TF2'',
          r_progressText = ''0/0 (0%)'', r_platinum = False\<rparr>),
      sent = [],
      newStore = storeB(''steam#7656#app#440'' \<mapsto>
        \<lparr>PK = ''steam#7656#app#440'', userName = ''Ricky'', steamId = ''7656'', appid = ''440'',
         gameTitle = ''TF2'', totalAchievements = 0, unlockedCount = 0, lockedCount = 0,
         progressText = ''0/0 (0%)'',
         unlockedApiNames = Some [],
         lockedApiNames = Some [],
         announcedApiNames = Some [''B'', ''C''],
         unannouncedUnlockedApiNames = Some [],
         platinumAnnounced = True, updatedAt = 1700000900,
         arraysTruncated = None, approxBytesBeforeTruncate = None, announcedDropped = None,
         announced = None\<rparr>)\<rparr>"
  by (simp add: run_defs size_defs ex_defs)

text \<open>
  Steam answers \<^verbatim>\<open>ok\<close> without an achievement list: the run succeeds and saves the
  pair at 0 of 0.
\<close>

theorem empty_snapshot_is_zero_progress_witness:
  "resolveTargetGame (worldA\<lparr>playerJson := Inr None\<rparr>) =
     Inr (Some \<lparr>t_appid = ''440'', t_gameTitle = ''TF2'', t_source = ''currently_playing''\<rparr>) \<and>
   snapshotOf (worldA\<lparr>playerJson := Inr None\<rparr>) = [] \<and>
   ddbGet (worldA\<lparr>playerJson := Inr None\<rparr>) = None \<and>
   ddbPut (worldA\<lparr>playerJson := Inr None\<rparr>) = None \<and>
   sent (processOneUser cfg0 (worldA\<lparr>playerJson := Inr None\<rparr>) storeB userA) = [] \<and>
   result (processOneUser cfg0 (worldA\<lparr>playerJson := Inr None\<rparr>) storeB userA) =
     Inr (Processed \<lparr>r_name = ''Ricky'', r_posted = 0, r_appid = ''440'', r_gameTitle = ''TF2'',
                      r_progressText = progressTextOf 0 0 0, r_platinum = False\<rparr>)"
proof -
  have a: "resolveTargetGame (worldA\<lparr>playerJson := Inr None\<rparr>) =
     Inr (Some \<lparr>t_appid = ''440'', t_gameTitle = ''TF2'', t_source = ''currently_playing''\<rparr>)"
    by (simp add: resolveTargetGame_def worldA_def)
  have b: "snapshotOf (worldA\<lparr>playerJson := Inr None\<rparr>) = []"
    by (simp add: snapshotOf_def)
  have c: "ddbGet (worldA\<lparr>playerJson := Inr None\<rparr>) = None"
    and d: "ddbPut (worldA\<lparr>playerJson := Inr None\<rparr>) = None"
    by (simp_all add: worldA_def)
  from empty_snapshot_is_zero_progress [OF a b c d, of cfg0 storeB userA] a b c d
  show ?thesis
    by (simp add: userA_def)
qed

theorem empty_snapshot_processed_counterexample:
  "playerJson (worldA\<lparr>playerJson := Inr None\<rparr>) = Inr None \<and>
   map_option unlockedCount (storeB ''steam#7656#app#440'') = Some 3 \<and>
   result (processOneUser cfg0 (worldA\<lparr>playerJson := Inr None\<rparr>) storeB userA) =
     Inr (Processed \<lparr>r_name = ''Ricky'', r_posted = 0, r_appid = ''440'', r_gameTitle = ''TF2'',
                      r_progressText = ''0/0 (0%)'', r_platinum = False\<rparr>) \<and>
   map_option unlockedCount
     (newStore (processOneUser cfg0 (worldA\<lparr>playerJson := Inr None\<rparr>) storeB userA)
        ''steam#7656#app#440'') = Some 0"
  by (simp add: run_missing_list) (simp add: storeB_def itemB_def)

subsection \<open>Platinum detection\<close>

lemma part000_ok:
  assumes "result (processOneUser_part000 cfg w st usr) = Inr (Processed r)"
  shows "\<exists>sch. getSchemaForApp w = Inr sch \<and>
               r_platinum r = (0 < totalCount sch \<and>
                               length (unlockedNames (snapshotOf w)) = totalCount sch)"
proof (cases "resolveTargetGame w")
  case (Inl e)
  with assms show ?thesis by (simp add: processOneUser_part000_def failed_def)
next
  case (Inr t)
  show ?thesis
  proof (cases t)
    case None
    with Inr assms show ?thesis by (simp add: processOneUser_part000_def)
  next
    case (Some tgt)
    note tgt = Inr [unfolded Some]
    show ?thesis
    proof (cases "getSchemaForApp w")
      case (Inl e)
      with tgt assms show ?thesis by (simp add: processOneUser_part000_def failed_def)
    next
      case sch: (Inr sch)
      show ?thesis
      proof (cases "playerJson w")
        case (Inl e)
        with tgt sch assms show ?thesis by (simp add: processOneUser_part000_def failed_def)
      next
        case body: (Inr body)
        show ?thesis
        proof (cases "getState w st (pkOf usr tgt)")
          case (Inl e)
          with tgt sch body assms show ?thesis
            by (simp add: processOneUser_part000_def failed_def Let_def)
        next
          case (Inr s)
          with tgt sch body assms snapshotOf_body [OF body] have
            "result (announceAndPersist cfg w st usr tgt (snapshotOf w) s
                (toPost s (nowSec w - windowSecondsOf cfg usr) (snapshotOf w))
                (titleEager tgt sch) (totalCount sch)
                (progressTextOf (length (unlockedNames (snapshotOf w))) (totalCount sch)
                   (percent w (length (unlockedNames (snapshotOf w))) (totalCount sch)))
                (totalCount sch > 0 \<and> length (unlockedNames (snapshotOf w)) = totalCount sch))
              = Inr (Processed r)"
            by (simp add: processOneUser_part000_def Let_def)
          from ap_ok(3) [OF this] sch show ?thesis by simp
        qed
      qed
    qed
  qed
qed

text \<open>
  Claim C5, as the code has it: the completion flag is true exactly when the total is
  positive and equals the unlocked count, where the total is the schema's count when
  the schema was fetched and otherwise the fallback \<open>unlocked + locked\<close> of the
  snapshot. In \<^verbatim>\<open>src/index.mjs\<close> the schema is fetched only when something is posted,
  so with nothing to post (total unknown) the flag is true as soon as the snapshot has
  an unlocked item and no locked one. In \<^verbatim>\<open>src/unnamed/part_000\<close> the schema is fetched
  in every run and the flag always compares with its count.
\<close>

theorem platinum_detection:
  "(result (processOneUser cfg w st usr) = Inr (Processed r) \<longrightarrow>
      r_platinum r =
        (if r_posted r = 0
         then 0 < length (unlockedNames (snapshotOf w)) + length (lockedNames (snapshotOf w)) \<and>
              length (unlockedNames (snapshotOf w)) =
                length (unlockedNames (snapshotOf w)) + length (lockedNames (snapshotOf w))
         else (\<exists>sch. getSchemaForApp w = Inr sch \<and> 0 < totalCount sch \<and>
                     length (unlockedNames (snapshotOf w)) = totalCount sch))) \<and>
   (result (processOneUser_part000 cfg w st usr) = Inr (Processed r') \<longrightarrow>
      (\<exists>sch. getSchemaForApp w = Inr sch \<and>
             r_platinum r' = (0 < totalCount sch \<and>
                              length (unlockedNames (snapshotOf w)) = totalCount sch)))"
proof (intro conjI impI)
  assume ok: "result (processOneUser cfg w st usr) = Inr (Processed r)"
  from processOneUser_ok [OF ok] obtain tgt fetched where
    lf: "lazyFetch w (toPost (loaded st (pkOf usr tgt)) (nowSec w - windowSecondsOf cfg usr) (snapshotOf w))
       = Inr fetched" and
    p: "r_posted r = length (toPost (loaded st (pkOf usr tgt)) (nowSec w - windowSecondsOf cfg usr) (snapshotOf w))" and
    q: "r_platinum r =
       (totalAchievementsOf fetched (length (unlockedNames (snapshotOf w)))
          (length (lockedNames (snapshotOf w))) > 0 \<and>
        length (unlockedNames (snapshotOf w)) =
          totalAchievementsOf fetched (length (unlockedNames (snapshotOf w)))
            (length (lockedNames (snapshotOf w))))"
    by metis
  show "r_platinum r =
        (if r_posted r = 0
         then 0 < length (unlockedNames (snapshotOf w)) + length (lockedNames (snapshotOf w)) \<and>
              length (unlockedNames (snapshotOf w)) =
                length (unlockedNames (snapshotOf w)) + length (lockedNames (snapshotOf w))
         else (\<exists>sch. getSchemaForApp w = Inr sch \<and> 0 < totalCount sch \<and>
                     length (unlockedNames (snapshotOf w)) = totalCount sch))"
  proof (cases "r_posted r = 0")
    case True
    with p lazyFetch_shape [OF lf] have "fetched = None" by simp
    with q True show ?thesis by (simp add: totalAchievementsOf_def)
  next
    case False
    with p lazyFetch_shape [OF lf] obtain sch where
      "getSchemaForApp w = Inr sch" "fetched = Some sch" by auto
    with q False show ?thesis by (simp add: totalAchievementsOf_def)
  qed
next
  assume "result (processOneUser_part000 cfg w st usr) = Inr (Processed r')"
  then show "\<exists>sch. getSchemaForApp w = Inr sch \<and>
             r_platinum r' = (0 < totalCount sch \<and>
                              length (unlockedNames (snapshotOf w)) = totalCount sch)"
    by (rule part000_ok)
qed

lemmas run000_defs = processOneUser_part000_def titleEager_def

lemma run_worldA_part000:
  "result (processOneUser_part000 cfg0 worldA noStore userA) =
     Inr (Processed \<lparr>r_name = ''Ricky'', r_posted = 1, r_appid = ''440'', r_gameTitle = ''TF2'',
                      r_progressText = ''3/4 (75%)'', r_platinum = False\<rparr>)"
  by (simp add: run000_defs run_defs size_defs ex_defs)

text \<open>The first poll of \<open>worldA\<close>, in both files: 3 of 4, not complete.\<close>

lemma schema_worldA:
  "getSchemaForApp worldA = Inr \<lparr>schemaGameName = Some ''TF2'', totalCount = 4\<rparr>"
  by (simp add: getSchemaForApp_def worldA_def)

lemma unlockedNames_worldA: "unlockedNames (snapshotOf worldA) = [''A'', ''B'', ''C'']"
  by (simp add: snapshot_worldA unlockedNames_def unlocked_def)

theorem platinum_detection_witness:
  "result (processOneUser cfg0 worldA noStore userA) =
     Inr (Processed \<lparr>r_name = ''Ricky'', r_posted = 1, r_appid = ''440'', r_gameTitle = ''TF2'',
                      r_progressText = ''3/4 (75%)'', r_platinum = False\<rparr>) \<and>
   result (processOneUser_part000 cfg0 worldA noStore userA) =
     Inr (Processed \<lparr>r_name = ''Ricky'', r_posted = 1, r_appid = ''440'', r_gameTitle = ''TF2'',
                      r_progressText = ''3/4 (75%)'', r_platinum = False\<rparr>) \<and>
   getSchemaForApp worldA = Inr \<lparr>schemaGameName = Some ''TF2'', totalCount = 4\<rparr> \<and>
   length (unlockedNames (snapshotOf worldA)) = 3"
  using platinum_detection [of cfg0 worldA noStore userA
      "\<lparr>r_name = ''Ricky'', r_posted = 1, r_appid = ''440'', r_gameTitle = ''TF2'',
        r_progressText = ''3/4 (75%)'', r_platinum = False\<rparr>"
      "\<lparr>r_name = ''Ricky'', r_posted = 1, r_appid = ''440'', r_gameTitle = ''TF2'',
        r_progressText = ''3/4 (75%)'', r_platinum = False\<rparr>"]
  by (simp add: run_worldA_bootstrap run_worldA_part000 schema_worldA unlockedNames_worldA)

text \<open>
  The only achievement of the game was unlocked long before the window and the
  schema service is down: nothing is posted, the total is never fetched, and the run
  still reports the game as complete.
\<close>

theorem platinum_without_schema_counterexample:
  "getSchemaForApp (worldA\<lparr>nowSec := 1700009999, playerJson := Inr (Some onlyA),
                           schemaResponse := Inl (SteamApiError 503 ''unavailable'')\<rparr>)
     = Inl (SteamApiError 503 ''unavailable'') \<and>
   result (processOneUser cfg0
      (worldA\<lparr>nowSec := 1700009999, playerJson := Inr (Some onlyA),
              schemaResponse := Inl (SteamApiError 503 ''unavailable'')\<rparr>) noStore userA) =
     Inr (Processed \<lparr>r_name = ''Ricky'', r_posted = 0, r_appid = ''440'', r_gameTitle = ''TF2'',
                      r_progressText = ''1/1 (100%)'', r_platinum = True\<rparr>)"
  by (simp add: run_defs size_defs ex_defs)

subsection \<open>The same snapshot twice\<close>

lemma names_covered:
  "apiname ` set (unlockedRecent cutoff pa)
     \<subseteq> set (foldl setAdd (seedAnnounced s pa) (map apiname (toPost s cutoff pa)))"
proof (cases "st_exists s")
  case True
  then show ?thesis
    by (auto simp: set_foldl_setAdd toPost_def)
next
  case False
  then show ?thesis
    using names_unlockedRecent [of cutoff pa]
    by (auto simp: set_foldl_setAdd seedAnnounced_def set_newSet)
qed

lemma unlockedRecent_mono:
  "c1 \<le> c2 \<Longrightarrow> set (unlockedRecent c2 pa) \<subseteq> set (unlockedRecent c1 pa)"
  by (auto simp: set_unlockedRecent)

lemma toPost_all_announced:
  assumes "st_exists s"
    and "apiname ` set (unlockedRecent cutoff pa) \<subseteq> set (st_announcedApiNames s)"
  shows "toPost s cutoff pa = []"
  using assms by (auto simp: toPost_def seedAnnounced_def set_newSet filter_empty_conv)

lemma no_double_index:
  assumes "result (processOneUser cfg w1 st usr) = Inr (Processed r1)"
    and "pairOf w1 usr = Some pk"
    and "pairOf w2 usr = Some pk"
    and "snapshotOf w2 = snapshotOf w1"
    and "nowSec w1 \<le> nowSec w2"
    and "map_option announcedApiNames (newStore (processOneUser cfg w1 st usr) pk) = Some (Some xs)"
  shows "sent (processOneUser cfg w2 (newStore (processOneUser cfg w1 st usr)) usr) = []"
proof -
  define st2 where "st2 = newStore (processOneUser cfg w1 st usr)"
  define c1 where "c1 = nowSec w1 - windowSecondsOf cfg usr"
  define c2 where "c2 = nowSec w2 - windowSecondsOf cfg usr"
  define snap where "snap = snapshotOf w1"
  from processOneUser_ok [OF assms(1)] obtain tgt title totalAch progress where
    tgt: "resolveTargetGame w1 = Inr (Some tgt)" and
    sto: "newStore (processOneUser cfg w1 st usr) =
         st(pkOf usr tgt \<mapsto> g_item (applyDdbSizeGuardrail cfg
              (stateItem w1 usr tgt (snapshotOf w1) title totalAch progress
                 (foldl setAdd (seedAnnounced (loaded st (pkOf usr tgt)) (snapshotOf w1))
                    (map apiname (toPost (loaded st (pkOf usr tgt))
                       (nowSec w1 - windowSecondsOf cfg usr) (snapshotOf w1))))
                 (latchOf (st (pkOf usr tgt)) \<or> (0 < r_posted r1 \<and> r_platinum r1)))))"
    by metis
  from assms(2) tgt have pk: "pkOf usr tgt = pk"
    by (simp add: pairOf_def)
  define aset where
    "aset = foldl setAdd (seedAnnounced (loaded st pk) snap) (map apiname (toPost (loaded st pk) c1 snap))"
  define it0 where
    "it0 = stateItem w1 usr tgt snap title totalAch progress aset
             (latchOf (st pk) \<or> (0 < r_posted r1 \<and> r_platinum r1))"
  have st2: "st2 pk = Some (g_item (applyDdbSizeGuardrail cfg it0))"
    unfolding st2_def sto pk it0_def aset_def snap_def c1_def by simp
  with assms(6) have "announcedApiNames (g_item (applyDdbSizeGuardrail cfg it0)) = Some xs"
    by (simp add: st2_def)
  with guardrail_announced [of cfg it0] have kept:
    "announcedApiNames (g_item (applyDdbSizeGuardrail cfg it0)) = Some aset"
    by (auto simp: it0_def)
  have ld: "st_exists (loaded st2 pk)" "st_announcedApiNames (loaded st2 pk) = aset"
    using st2 kept by (simp_all add: loaded_def announcedOf_def)
  have "c1 \<le> c2"
    using assms(5) by (simp add: c1_def c2_def)
  then have "apiname ` set (unlockedRecent c2 snap) \<subseteq> apiname ` set (unlockedRecent c1 snap)"
    using unlockedRecent_mono by blast
  also have "\<dots> \<subseteq> set aset"
    unfolding aset_def by (rule names_covered)
  finally have none_due: "toPost (loaded st2 pk) c2 snap = []"
    using ld by (intro toPost_all_announced) simp_all
  show ?thesis
  proof (cases rule: processOneUser_sent [of cfg w2 st2 usr])
    case nothing
    then show ?thesis by (simp add: st2_def)
  next
    case (some tgt2 k c)
    from assms(3) some(1) have "pkOf usr tgt2 = pk"
      by (simp add: pairOf_def)
    with some(2,3) none_due [unfolded st2_def c2_def snap_def] assms(4) show ?thesis
      by (simp add: st2_def)
  qed
qed

lemma no_double_part000:
  assumes "result (processOneUser_part000 cfg w1 st usr) = Inr (Processed r1)"
    and "pairOf w1 usr = Some pk"
    and "pairOf w2 usr = Some pk"
    and "snapshotOf w2 = snapshotOf w1"
    and "nowSec w1 \<le> nowSec w2"
    and "map_option announcedApiNames (newStore (processOneUser_part000 cfg w1 st usr) pk) = Some (Some xs)"
  shows "sent (processOneUser_part000 cfg w2 (newStore (processOneUser_part000 cfg w1 st usr)) usr) = []"
proof -
  define st2 where "st2 = newStore (processOneUser_part000 cfg w1 st usr)"
  define c1 where "c1 = nowSec w1 - windowSecondsOf cfg usr"
  define c2 where "c2 = nowSec w2 - windowSecondsOf cfg usr"
  define snap where "snap = snapshotOf w1"
  from part000_run_ok [OF assms(1)] obtain tgt title totalAch progress where
    tgt: "resolveTargetGame w1 = Inr (Some tgt)" and
    sto: "newStore (processOneUser_part000 cfg w1 st usr) =
         st(pkOf usr tgt \<mapsto> g_item (applyDdbSizeGuardrail cfg
              (stateItem w1 usr tgt (snapshotOf w1) title totalAch progress
                 (foldl setAdd (seedAnnounced (loaded st (pkOf usr tgt)) (snapshotOf w1))
                    (map apiname (toPost (loaded st (pkOf usr tgt))
                       (nowSec w1 - windowSecondsOf cfg usr) (snapshotOf w1))))
                 (latchOf (st (pkOf usr tgt)) \<or> (0 < r_posted r1 \<and> r_platinum r1)))))"
    by metis
  from assms(2) tgt have pk: "pkOf usr tgt = pk"
    by (simp add: pairOf_def)
  define aset where
    "aset = foldl setAdd (seedAnnounced (loaded st pk) snap) (map apiname (toPost (loaded st pk) c1 snap))"
  define it0 where
    "it0 = stateItem w1 usr tgt snap title totalAch progress aset
             (latchOf (st pk) \<or> (0 < r_posted r1 \<and> r_platinum r1))"
  have st2: "st2 pk = Some (g_item (applyDdbSizeGuardrail cfg it0))"
    unfolding st2_def sto pk it0_def aset_def snap_def c1_def by simp
  with assms(6) have "announcedApiNames (g_item (applyDdbSizeGuardrail cfg it0)) = Some xs"
    by (simp add: st2_def)
  with guardrail_announced [of cfg it0] have kept:
    "announcedApiNames (g_item (applyDdbSizeGuardrail cfg it0)) = Some aset"
    by (auto simp: it0_def)
  have ld: "st_exists (loaded st2 pk)" "st_announcedApiNames (loaded st2 pk) = aset"
    using st2 kept by (simp_all add: loaded_def announcedOf_def)
  have "c1 \<le> c2"
    using assms(5) by (simp add: c1_def c2_def)
  then have "apiname ` set (unlockedRecent c2 snap) \<subseteq> apiname ` set (unlockedRecent c1 snap)"
    using unlockedRecent_mono by blast
  also have "\<dots> \<subseteq> set aset"
    unfolding aset_def by (rule names_covered)
  finally have none_due: "toPost (loaded st2 pk) c2 snap = []"
    using ld by (intro toPost_all_announced) simp_all
  show ?thesis
  proof (cases rule: part000_sent [of cfg w2 st2 usr])
    case nothing
    then show ?thesis by (simp add: st2_def)
  next
    case (some tgt2 k c)
    from assms(3) some(1) have "pkOf usr tgt2 = pk"
      by (simp add: pairOf_def)
    with some(2,3) none_due [unfolded st2_def c2_def snap_def] assms(4) show ?thesis
      by (simp add: st2_def)
  qed
qed

text \<open>
  Claim C6, in both source files: when a run has succeeded and has persisted its
  announced set, the next run of the same pair with an unchanged snapshot (at the same
  or a later time) sends nothing: its list of achievements to post is empty.
\<close>

theorem no_double_notification:
  "(result (processOneUser cfg w1 st usr) = Inr (Processed r1) \<and>
    pairOf w1 usr = Some pk \<and> pairOf w2 usr = Some pk \<and>
    snapshotOf w2 = snapshotOf w1 \<and> nowSec w1 \<le> nowSec w2 \<and>
    map_option announcedApiNames (newStore (processOneUser cfg w1 st usr) pk) = Some (Some xs) \<longrightarrow>
      sent (processOneUser cfg w2 (newStore (processOneUser cfg w1 st usr)) usr) = []) \<and>
   (result (processOneUser_part000 cfg w1 st usr) = Inr (Processed r1') \<and>
    pairOf w1 usr = Some pk \<and> pairOf w2 usr = Some pk \<and>
    snapshotOf w2 = snapshotOf w1 \<and> nowSec w1 \<le> nowSec w2 \<and>
    map_option announcedApiNames (newStore (processOneUser_part000 cfg w1 st usr) pk)
      = Some (Some xs') \<longrightarrow>
      sent (processOneUser_part000 cfg w2 (newStore (processOneUser_part000 cfg w1 st usr)) usr) = [])"
proof (rule conjI; rule impI)
  assume "result (processOneUser cfg w1 st usr) = Inr (Processed r1) \<and>
    pairOf w1 usr = Some pk \<and> pairOf w2 usr = Some pk \<and>
    snapshotOf w2 = snapshotOf w1 \<and> nowSec w1 \<le> nowSec w2 \<and>
    map_option announcedApiNames (newStore (processOneUser cfg w1 st usr) pk) = Some (Some xs)"
  then have "result (processOneUser cfg w1 st usr) = Inr (Processed r1)"
    "pairOf w1 usr = Some pk" "pairOf w2 usr = Some pk"
    "snapshotOf w2 = snapshotOf w1" "nowSec w1 \<le> nowSec w2"
    "map_option announcedApiNames (newStore (processOneUser cfg w1 st usr) pk) = Some (Some xs)"
    by simp_all
  then show "sent (processOneUser cfg w2 (newStore (processOneUser cfg w1 st usr)) usr) = []"
    by (rule no_double_index)
next
  assume "result (processOneUser_part000 cfg w1 st usr) = Inr (Processed r1') \<and>
    pairOf w1 usr = Some pk \<and> pairOf w2 usr = Some pk \<and>
    snapshotOf w2 = snapshotOf w1 \<and> nowSec w1 \<le> nowSec w2 \<and>
    map_option announcedApiNames (newStore (processOneUser_part000 cfg w1 st usr) pk)
      = Some (Some xs')"
  then have "result (processOneUser_part000 cfg w1 st usr) = Inr (Processed r1')"
    "pairOf w1 usr = Some pk" "pairOf w2 usr = Some pk"
    "snapshotOf w2 = snapshotOf w1" "nowSec w1 \<le> nowSec w2"
    "map_option announcedApiNames (newStore (processOneUser_part000 cfg w1 st usr) pk)
      = Some (Some xs')"
    by simp_all
  then show "sent (processOneUser_part000 cfg w2 (newStore (processOneUser_part000 cfg w1 st usr)) usr) = []"
    by (rule no_double_part000)
qed

lemma pair_worldA: "pairOf worldA userA = Some ''steam#7656#app#440''"
  by (simp add: run_defs ex_defs)

lemma run_worldA_again:
  "sent (processOneUser cfg0 (worldA\<lparr>nowSec := 1700000960\<rparr>)
           (newStore (processOneUser cfg0 worldA noStore userA)) userA) = []"
  by (simp add: run_worldA_bootstrap) (simp add: run_defs size_defs ex_defs)

text \<open>The poll of \<open>worldA\<close> and, a minute later, the same snapshot again, in both files.\<close>

theorem no_double_notification_witness:
  "result (processOneUser cfg0 worldA noStore userA) =
     Inr (Processed \<lparr>r_name = ''Ricky'', r_posted = 1, r_appid = ''440'', r_gameTitle = ''TF2'',
                      r_progressText = ''3/4 (75%)'', r_platinum = False\<rparr>) \<and>
   result (processOneUser_part000 cfg0 worldA noStore userA) =
     Inr (Processed \<lparr>r_name = ''Ricky'', r_posted = 1, r_appid = ''440'', r_gameTitle = ''TF2'',
                      r_progressText = ''3/4 (75%)'', r_platinum = False\<rparr>) \<and>
   pairOf worldA userA = Some ''steam#7656#app#440'' \<and>
   pairOf (worldA\<lparr>nowSec := 1700000960\<rparr>) userA = Some ''steam#7656#app#440'' \<and>
   snapshotOf (worldA\<lparr>nowSec := 1700000960\<rparr>) = snapshotOf worldA \<and>
   nowSec worldA \<le> nowSec (worldA\<lparr>nowSec := 1700000960\<rparr>) \<and>
   map_option announcedApiNames
     (newStore (processOneUser cfg0 worldA noStore userA) ''steam#7656#app#440'')
       = Some (Some [''A'', ''B'', ''C'']) \<and>
   map_option announcedApiNames
     (newStore (processOneUser_part000 cfg0 worldA noStore userA) ''steam#7656#app#440'')
       = Some (Some [''A'', ''B'', ''C'']) \<and>
   sent (processOneUser cfg0 worldA noStore userA) =
     [AchievementEmbed \<lparr>apiname = ''A'', unlocktime = 1700000000\<rparr>] \<and>
   sent (processOneUser_part000 cfg0 worldA noStore userA) =
     [AchievementEmbed \<lparr>apiname = ''A'', unlocktime = 1700000000\<rparr>] \<and>
   sent (processOneUser cfg0 (worldA\<lparr>nowSec := 1700000960\<rparr>)
           (newStore (processOneUser cfg0 worldA noStore userA)) userA) = [] \<and>
   sent (processOneUser_part000 cfg0 (worldA\<lparr>nowSec := 1700000960\<rparr>)
           (newStore (processOneUser_part000 cfg0 worldA noStore userA)) userA) = []"
proof -
  have a: "result (processOneUser cfg0 worldA noStore userA) =
     Inr (Processed \<lparr>r_name = ''Ricky'', r_posted = 1, r_appid = ''440'', r_gameTitle = ''TF2'',
                      r_progressText = ''3/4 (75%)'', r_platinum = False\<rparr>)"
    by (simp add: run_worldA_bootstrap)
  have a': "result (processOneUser_part000 cfg0 worldA noStore userA) =
     Inr (Processed \<lparr>r_name = ''Ricky'', r_posted = 1, r_appid = ''440'', r_gameTitle = ''TF2'',
                      r_progressText = ''3/4 (75%)'', r_platinum = False\<rparr>)"
    by (simp add: run_worldA_bootstrap_part000)
  have b: "pairOf (worldA\<lparr>nowSec := 1700000960\<rparr>) userA = Some ''steam#7656#app#440''"
    by (simp add: run_defs ex_defs)
  have c: "snapshotOf (worldA\<lparr>nowSec := 1700000960\<rparr>) = snapshotOf worldA"
    by (simp add: snapshotOf_def)
  have d: "nowSec worldA \<le> nowSec (worldA\<lparr>nowSec := 1700000960\<rparr>)"
    by (simp add: worldA_def)
  have e: "map_option announcedApiNames
     (newStore (processOneUser cfg0 worldA noStore userA) ''steam#7656#app#440'')
       = Some (Some [''A'', ''B'', ''C''])"
    by (simp add: run_worldA_bootstrap)
  have e': "map_option announcedApiNames
     (newStore (processOneUser_part000 cfg0 worldA noStore userA) ''steam#7656#app#440'')
       = Some (Some [''A'', ''B'', ''C''])"
    by (simp add: run_worldA_bootstrap_part000)
  have f: "sent (processOneUser cfg0 worldA noStore userA) =
     [AchievementEmbed \<lparr>apiname = ''A'', unlocktime = 1700000000\<rparr>]"
    by (simp add: run_worldA_bootstrap)
  have f': "sent (processOneUser_part000 cfg0 worldA noStore userA) =
     [AchievementEmbed \<lparr>apiname = ''A'', unlocktime = 1700000000\<rparr>]"
    by (simp add: run_worldA_bootstrap_part000)
  from no_double_notification
    [of cfg0 worldA noStore userA
        "\<lparr>r_name = ''Ricky'', r_posted = 1, r_appid = ''440'', r_gameTitle = ''TF2'',
          r_progressText = ''3/4 (75%)'', r_platinum = False\<rparr>"
        "''steam#7656#app#440''" "worldA\<lparr>nowSec := 1700000960\<rparr>" "[''A'', ''B'', ''C'']"
        "\<lparr>r_name = ''Ricky'', r_posted = 1, r_appid = ''440'', r_gameTitle = ''TF2'',
          r_progressText = ''3/4 (75%)'', r_platinum = False\<rparr>"
        "[''A'', ''B'', ''C'']"]
    a a' pair_worldA b c d e e' f f'
  show ?thesis by simp
qed

subsection \<open>The completion gate\<close>











subsection \<open>The announced set over time\<close>

lemma names_toPost: "set (map apiname (toPost s cutoff pa)) \<subseteq> set (unlockedNames pa)"
  using set_toPost [of s cutoff pa] names_unlockedRecent [of cutoff pa] by auto

lemma set_seedAnnounced:
  "set (seedAnnounced s pa) =
     (if st_exists s then set (st_announcedApiNames s) else set (unlockedNames pa))"
  by (simp add: seedAnnounced_def set_newSet)

text \<open>What a successful run saves for its pair, between what it loaded and what it saw.\<close>

lemma run_saved_set:
  assumes ok: "result (processOneUser cfg w st usr) = Inr (Processed r)"
    and pair: "pairOf w usr = Some pk"
  shows "\<exists>it aset. newStore (processOneUser cfg w st usr) = st(pk \<mapsto> it) \<and>
           announced it = None \<and>
           (announcedApiNames it = None \<and> announcedDropped it = Some True \<or>
            announcedApiNames it = Some aset) \<and>
           set (announcedOf (st pk)) \<subseteq> set aset \<and>
           set aset \<subseteq> set (announcedOf (st pk)) \<union> set (unlockedNames (snapshotOf w))"
proof -
  from processOneUser_ok [OF ok] obtain tgt title totalAch progress where
    tgt: "resolveTargetGame w = Inr (Some tgt)" and
    sto: "newStore (processOneUser cfg w st usr) =
         st(pkOf usr tgt \<mapsto> g_item (applyDdbSizeGuardrail cfg
              (stateItem w usr tgt (snapshotOf w) title totalAch progress
                 (foldl setAdd (seedAnnounced (loaded st (pkOf usr tgt)) (snapshotOf w))
                    (map apiname (toPost (loaded st (pkOf usr tgt))
                       (nowSec w - windowSecondsOf cfg usr) (snapshotOf w))))
                 (latchOf (st (pkOf usr tgt)) \<or> (0 < r_posted r \<and> r_platinum r)))))"
    by metis
  from pair tgt have pk: "pkOf usr tgt = pk"
    by (simp add: pairOf_def)
  define aset where
    "aset = foldl setAdd (seedAnnounced (loaded st pk) (snapshotOf w))
              (map apiname (toPost (loaded st pk) (nowSec w - windowSecondsOf cfg usr) (snapshotOf w)))"
  define it0 where
    "it0 = stateItem w usr tgt (snapshotOf w) title totalAch progress aset
             (latchOf (st pk) \<or> (0 < r_posted r \<and> r_platinum r))"
  have sto': "newStore (processOneUser cfg w st usr) = st(pk \<mapsto> g_item (applyDdbSizeGuardrail cfg it0))"
    unfolding sto pk it0_def aset_def by (rule refl)
  have leg: "announced (g_item (applyDdbSizeGuardrail cfg it0)) = None"
    by (simp add: guardrail_legacy it0_def)
  have ann: "announcedApiNames (g_item (applyDdbSizeGuardrail cfg it0)) = None \<and>
             announcedDropped (g_item (applyDdbSizeGuardrail cfg it0)) = Some True \<or>
             announcedApiNames (g_item (applyDdbSizeGuardrail cfg it0)) = Some aset"
    using guardrail_announced [of cfg it0] by (auto simp: it0_def)
  have seed: "set (seedAnnounced (loaded st pk) (snapshotOf w)) =
      (if st pk = None then set (unlockedNames (snapshotOf w)) else set (announcedOf (st pk)))"
    by (simp add: set_seedAnnounced loaded_def)
  have posts: "set (map apiname (toPost (loaded st pk) (nowSec w - windowSecondsOf cfg usr) (snapshotOf w)))
      \<subseteq> set (unlockedNames (snapshotOf w))"
    by (rule names_toPost)
  have aset: "set aset = set (seedAnnounced (loaded st pk) (snapshotOf w)) \<union>
      set (map apiname (toPost (loaded st pk) (nowSec w - windowSecondsOf cfg usr) (snapshotOf w)))"
    by (simp only: aset_def set_foldl_setAdd)
  have sub: "set (announcedOf (st pk)) \<subseteq> set aset"
    unfolding aset seed by (cases "st pk") (simp_all add: announcedOf_def)
  have sup: "set aset \<subseteq> set (announcedOf (st pk)) \<union> set (unlockedNames (snapshotOf w))"
    unfolding aset seed using posts by (cases "st pk") auto
  from sto' leg ann sub sup show ?thesis by blast
qed

lemma run_announced_step:
  "set (announcedOf (newStore (processOneUser cfg w st usr) pk))
     \<subseteq> set (announcedOf (st pk)) \<union>
        (if pairOf w usr = Some pk then set (unlockedNames (snapshotOf w)) else {})"
proof (cases rule: processOneUser_store [of cfg w st usr])
  case same
  then show ?thesis by simp
next
  case (saved tgt r it)
  have pair: "pairOf w usr = Some (pkOf usr tgt)"
    using saved(1) by (simp add: pairOf_def)
  from run_saved_set [OF saved(2) pair] obtain it' aset where
    sto: "newStore (processOneUser cfg w st usr) = st(pkOf usr tgt \<mapsto> it')" and
    leg: "announced it' = None" and
    ann: "announcedApiNames it' = None \<or> announcedApiNames it' = Some aset" and
    sup: "set aset \<subseteq> set (announcedOf (st (pkOf usr tgt))) \<union> set (unlockedNames (snapshotOf w))"
    by blast
  show ?thesis
  proof (cases "pkOf usr tgt = pk")
    case True
    with ann leg sup pair show ?thesis
      unfolding sto by (auto simp: announcedOf_def)
  next
    case False
    then show ?thesis unfolding sto by simp
  qed
qed

lemma seenUnlocked_Cons:
  "seenUnlocked ((w, usr) # rest) pk =
     (if pairOf w usr = Some pk then set (unlockedNames (snapshotOf w)) else {}) \<union>
     seenUnlocked rest pk"
  by (simp add: seenUnlocked_def)

lemma announced_within_seen:
  "set (announcedOf (finalStore cfg st runs pk)) \<subseteq> set (announcedOf (st pk)) \<union> seenUnlocked runs pk"
proof (induction runs arbitrary: st)
  case Nil
  then show ?case by (simp add: seenUnlocked_def)
next
  case (Cons x rest)
  obtain w usr where x: "x = (w, usr)" by (cases x)
  from Cons.IH [of "newStore (processOneUser cfg w st usr)"]
       run_announced_step [of cfg w st usr pk]
  show ?case
    unfolding x seenUnlocked_Cons by auto
qed

text \<open>
  Claim C8: a run that saves the record of its pair persists an announced list that
  contains every api name loaded at the start of the run and, beyond those, only api
  names the snapshot shows unlocked; the sole exception is the guardrail's last
  resort, which removes the list and marks \<^verbatim>\<open>announcedDropped\<close>. Over any sequence of
  runs that starts without records, the announced list of a pair holds only api names
  that some run has seen unlocked for that pair.
\<close>

theorem announced_set_monotone:
  "(result (processOneUser cfg w st usr) = Inr (Processed r) \<and> pairOf w usr = Some pk \<longrightarrow>
      (\<exists>it. newStore (processOneUser cfg w st usr) pk = Some it \<and>
            (announcedApiNames it = None \<and> announcedDropped it = Some True \<or>
             (\<exists>xs. announcedApiNames it = Some xs \<and>
                   set (announcedOf (st pk)) \<subseteq> set xs \<and>
                   set xs \<subseteq> set (announcedOf (st pk)) \<union> set (unlockedNames (snapshotOf w)))))) \<and>
   set (announcedOf (finalStore cfg noStore runs pk')) \<subseteq> seenUnlocked runs pk'"
proof (intro conjI impI)
  assume "result (processOneUser cfg w st usr) = Inr (Processed r) \<and> pairOf w usr = Some pk"
  then have "result (processOneUser cfg w st usr) = Inr (Processed r)" "pairOf w usr = Some pk"
    by simp_all
  from run_saved_set [OF this] obtain it aset where
    "newStore (processOneUser cfg w st usr) = st(pk \<mapsto> it)"
    "announcedApiNames it = None \<and> announcedDropped it = Some True \<or> announcedApiNames it = Some aset"
    "set (announcedOf (st pk)) \<subseteq> set aset"
    "set aset \<subseteq> set (announcedOf (st pk)) \<union> set (unlockedNames (snapshotOf w))"
    by blast
  then show "\<exists>it. newStore (processOneUser cfg w st usr) pk = Some it \<and>
            (announcedApiNames it = None \<and> announcedDropped it = Some True \<or>
             (\<exists>xs. announcedApiNames it = Some xs \<and>
                   set (announcedOf (st pk)) \<subseteq> set xs \<and>
                   set xs \<subseteq> set (announcedOf (st pk)) \<union> set (unlockedNames (snapshotOf w))))"
    by (intro exI [of _ it]) auto
next
  show "set (announcedOf (finalStore cfg noStore runs pk')) \<subseteq> seenUnlocked runs pk'"
    using announced_within_seen [of cfg noStore runs pk']
    by (simp add: noStore_def announcedOf_def)
qed

lemma run_worldA_storeB:
  "processOneUser cfg0 worldA storeB userA =
     \<lparr>result = Inr (Processed
         \<lparr>r_name = ''Ricky'', r_posted = 1, r_appid = ''440'', r_gameTitle = ''TF2'',
          r_progressText = ''3/4 (75%)'', r_platinum = False\<rparr>),
      sent = [AchievementEmbed \<lparr>apiname = ''A'', unlocktime = 1700000000\<rparr>],
      newStore = storeB(''steam#7656#app#440'' \<mapsto>
        \<lparr>PK = ''steam#7656#app#440'', userName = ''Ricky'', steamId = ''7656'', appid = ''440'',
         gameTitle = ''TF2'', totalAchievements = 4, unlockedCount = 3, lockedCount = 1,
         progressText = ''3/4 (75%)'',
         unlockedApiNames = Some [''A'', ''B'', ''C''],
         lockedApiNames = Some [''D''],
         announcedApiNames = Some [''B'', ''C'', ''A''],
         unannouncedUnlockedApiNames = Some [],
         platinumAnnounced = True, updatedAt = 1700000900,
         arraysTruncated = None, approxBytesBeforeTruncate = None, announcedDropped = None,
         announced = None\<rparr>)\<rparr>"
  by (simp add: run_defs size_defs ex_defs)

text \<open>
  The record holds B and C as announced; the poll of \<open>worldA\<close> announces A and saves
  B, C, A.
\<close>

theorem announced_set_monotone_witness:
  "result (processOneUser cfg0 worldA storeB userA) =
     Inr (Processed \<lparr>r_name = ''Ricky'', r_posted = 1, r_appid = ''440'', r_gameTitle = ''TF2'',
                      r_progressText = ''3/4 (75%)'', r_platinum = False\<rparr>) \<and>
   pairOf worldA userA = Some ''steam#7656#app#440'' \<and>
   announcedOf (storeB ''steam#7656#app#440'') = [''B'', ''C''] \<and>
   map_option announcedApiNames (newStore (processOneUser cfg0 worldA storeB userA) ''steam#7656#app#440'')
     = Some (Some [''B'', ''C'', ''A'']) \<and>
   set (announcedOf (finalStore cfg0 noStore [(worldA, userA)] ''steam#7656#app#440''))
     \<subseteq> seenUnlocked [(worldA, userA)] ''steam#7656#app#440''"
proof -
  have a: "announcedOf (storeB ''steam#7656#app#440'') = [''B'', ''C'']"
    by (simp add: announcedOf_def storeB_def itemB_def)
  from announced_set_monotone [of cfg0 worldA storeB userA
      "\<lparr>r_name = ''Ricky'', r_posted = 1, r_appid = ''440'', r_gameTitle = ''TF2'',
        r_progressText = ''3/4 (75%)'', r_platinum = False\<rparr>"
      "''steam#7656#app#440''" "[(worldA, userA)]" "''steam#7656#app#440''"]
    a pair_worldA
  show ?thesis
    by (simp add: run_worldA_storeB)
qed

subsection \<open>The concurrency runner\<close>

lemma runners_length [simp]:
  "length (runners (resume items worker p r)) = length (runners p)"
  by (simp add: resume_def split: runnerState.splits)

lemma runners_length_foldl [simp]:
  "length (runners (foldl (resume items worker) p schedule)) = length (runners p)"
  by (induction schedule arbitrary: p) simp_all

lemma poolInv_init: "poolInv items worker (initPool items concurrency)"
  by (auto simp: poolInv_def initPool_def)

lemma poolInvI:
  assumes "length (results p) = length items"
    and "\<And>r c. r < length (runners p) \<Longrightarrow> runners p ! r = Awaiting c
           \<Longrightarrow> c < idx p \<and> c < length items"
    and "\<And>i. i < length items \<Longrightarrow>
           results p ! i = settled (worker (items ! i)) \<or>
           results p ! i = Empty \<and>
             (idx p \<le> i \<or> (\<exists>r < length (runners p). runners p ! r = Awaiting i))"
    and "\<And>r. r < length (runners p) \<Longrightarrow> runners p ! r = Returned \<Longrightarrow> length items \<le> idx p"
    and "attempted p = [0 ..< min (idx p) (length items)]"
  shows "poolInv items worker p"
  using assms unfolding poolInv_def by blast

lemma poolInv_resume:
  assumes inv: "poolInv items worker p"
  shows "poolInv items worker (resume items worker p r)"
proof (cases "r < length (runners p)")
  case False
  with inv show ?thesis by (simp add: resume_def)
next
  case r: True
  from inv have len: "length (results p) = length items"
    and aw: "\<And>r' c. r' < length (runners p) \<Longrightarrow> runners p ! r' = Awaiting c
               \<Longrightarrow> c < idx p \<and> c < length items"
    and sl: "\<And>i. i < length items \<Longrightarrow>
               results p ! i = settled (worker (items ! i)) \<or>
               results p ! i = Empty \<and>
                 (idx p \<le> i \<or> (\<exists>r' < length (runners p). runners p ! r' = Awaiting i))"
    and rt: "(\<exists>r' < length (runners p). runners p ! r' = Returned) \<Longrightarrow> length items \<le> idx p"
    and at: "attempted p = [0 ..< min (idx p) (length items)]"
    by (auto simp: poolInv_def)
  show ?thesis
  proof (cases "runners p ! r")
    case Returned
    with inv r show ?thesis by (simp add: resume_def)
  next
    case (Awaiting c0)
    from aw [OF r Awaiting] have c0: "c0 < idx p" "c0 < length items" by simp_all
    define p' where "p' = p\<lparr>results := (results p)[c0 := settled (worker (items ! c0))],
                             runners := (runners p)[r := Pulling]\<rparr>"
    have eq: "resume items worker p r = p'"
      using r Awaiting by (simp add: resume_def p'_def)
    have "poolInv items worker p'"
    proof (rule poolInvI)
      show "length (results p') = length items"
        by (simp add: p'_def len)
    next
      fix r' c
      assume "r' < length (runners p')" "runners p' ! r' = Awaiting c"
      then show "c < idx p' \<and> c < length items"
        using aw [of r' c] r by (cases "r' = r") (auto simp: p'_def)
    next
      fix i
      assume i: "i < length items"
      show "results p' ! i = settled (worker (items ! i)) \<or>
            results p' ! i = Empty \<and>
              (idx p' \<le> i \<or> (\<exists>r' < length (runners p'). runners p' ! r' = Awaiting i))"
      proof (cases "i = c0")
        case True
        with c0 len show ?thesis by (simp add: p'_def)
      next
        case False
        from sl [OF i] show ?thesis
        proof (elim disjE conjE exE)
          assume "results p ! i = settled (worker (items ! i))"
          with False show ?thesis by (simp add: p'_def)
        next
          assume "results p ! i = Empty" "idx p \<le> i"
          with False show ?thesis by (simp add: p'_def)
        next
          fix r'
          assume e: "results p ! i = Empty" and r': "r' < length (runners p)" "runners p ! r' = Awaiting i"
          with Awaiting False have "r' \<noteq> r" by auto
          with r' have "r' < length (runners p') \<and> runners p' ! r' = Awaiting i"
            by (simp add: p'_def)
          with e False show ?thesis by (auto simp: p'_def)
        qed
      qed
    next
      fix r'
      assume "r' < length (runners p')" "runners p' ! r' = Returned"
      then have "r' < length (runners p)" "runners p ! r' = Returned"
        by (cases "r' = r"; simp add: p'_def)+
      with rt show "length items \<le> idx p'"
        by (auto simp: p'_def)
    next
      show "attempted p' = [0 ..< min (idx p') (length items)]"
        by (simp add: p'_def at)
    qed
    with eq show ?thesis by simp
  next
    case Pulling
    show ?thesis
    proof (cases "length items \<le> idx p")
      case over: True
      define p' where "p' = p\<lparr>idx := idx p + 1, runners := (runners p)[r := Returned]\<rparr>"
      have eq: "resume items worker p r = p'"
        using r Pulling over by (simp add: resume_def p'_def)
      have "poolInv items worker p'"
      proof (rule poolInvI)
        show "length (results p') = length items"
          by (simp add: p'_def len)
      next
        fix r' c
        assume "r' < length (runners p')" "runners p' ! r' = Awaiting c"
        then show "c < idx p' \<and> c < length items"
          using aw [of r' c] r by (cases "r' = r") (auto simp: p'_def)
      next
        fix i
        assume i: "i < length items"
        from sl [OF i] show "results p' ! i = settled (worker (items ! i)) \<or>
            results p' ! i = Empty \<and>
              (idx p' \<le> i \<or> (\<exists>r' < length (runners p'). runners p' ! r' = Awaiting i))"
        proof (elim disjE conjE exE)
          assume "results p ! i = settled (worker (items ! i))"
          then show ?thesis by (simp add: p'_def)
        next
          assume "results p ! i = Empty" "idx p \<le> i"
          with i over show ?thesis by simp
        next
          fix r'
          assume e: "results p ! i = Empty" and r': "r' < length (runners p)" "runners p ! r' = Awaiting i"
          with Pulling have "r' \<noteq> r" by auto
          with r' have "r' < length (runners p') \<and> runners p' ! r' = Awaiting i"
            by (simp add: p'_def)
          with e show ?thesis by (auto simp: p'_def)
        qed
      next
        fix r'
        show "length items \<le> idx p'"
          using over by (simp add: p'_def)
      next
        show "attempted p' = [0 ..< min (idx p') (length items)]"
          using over by (simp add: p'_def at min_def)
      qed
      with eq show ?thesis by simp
    next
      case work: False
      define p' where "p' = p\<lparr>idx := idx p + 1,
                               runners := (runners p)[r := Awaiting (idx p)],
                               attempted := attempted p @ [idx p]\<rparr>"
      have eq: "resume items worker p r = p'"
        using r Pulling work by (simp add: resume_def p'_def)
      have "poolInv items worker p'"
      proof (rule poolInvI)
        show "length (results p') = length items"
          by (simp add: p'_def len)
      next
        fix r' c
        assume "r' < length (runners p')" "runners p' ! r' = Awaiting c"
        then show "c < idx p' \<and> c < length items"
          using aw [of r' c] r work by (cases "r' = r") (auto simp: p'_def)
      next
        fix i
        assume i: "i < length items"
        from sl [OF i] show "results p' ! i = settled (worker (items ! i)) \<or>
            results p' ! i = Empty \<and>
              (idx p' \<le> i \<or> (\<exists>r' < length (runners p'). runners p' ! r' = Awaiting i))"
        proof (elim disjE conjE exE)
          assume "results p ! i = settled (worker (items ! i))"
          then show ?thesis by (simp add: p'_def)
        next
          assume e: "results p ! i = Empty" and le: "idx p \<le> i"
          show ?thesis
          proof (cases "i = idx p")
            case True
            with r have "r < length (runners p') \<and> runners p' ! r = Awaiting i"
              by (simp add: p'_def)
            with e show ?thesis by (auto simp: p'_def)
          next
            case False
            with le e show ?thesis by (simp add: p'_def)
          qed
        next
          fix r'
          assume e: "results p ! i = Empty" and r': "r' < length (runners p)" "runners p ! r' = Awaiting i"
          with Pulling have "r' \<noteq> r" by auto
          with r' have "r' < length (runners p') \<and> runners p' ! r' = Awaiting i"
            by (simp add: p'_def)
          with e show ?thesis by (auto simp: p'_def)
        qed
      next
        fix r'
        assume "r' < length (runners p')" "runners p' ! r' = Returned"
        then have "r' < length (runners p)" "runners p ! r' = Returned"
          by (cases "r' = r"; simp add: p'_def)+
        with rt work show "length items \<le> idx p'"
          by auto
      next
        show "attempted p' = [0 ..< min (idx p') (length items)]"
          using work by (simp add: p'_def at min_def)
      qed
      with eq show ?thesis by simp
    qed
  qed
qed

lemma poolInv_foldl:
  "poolInv items worker p \<Longrightarrow> poolInv items worker (foldl (resume items worker) p schedule)"
  by (induction schedule arbitrary: p) (simp_all add: poolInv_resume)

lemma finished_results:
  assumes inv: "poolInv items worker p"
    and fin: "finished p"
    and ne: "runners p \<noteq> [] \<or> items = []"
  shows "results p = map (\<lambda>u. settled (worker u)) items \<and> attempted p = [0 ..< length items]"
proof -
  from fin have all: "\<And>r. r < length (runners p) \<Longrightarrow> runners p ! r = Returned"
    by (simp add: finished_def list_all_length)
  have past: "length items \<le> idx p"
  proof (cases "items = []")
    case True
    then show ?thesis by simp
  next
    case False
    with ne have "0 < length (runners p)" by simp
    with all [of 0] inv show ?thesis
      by (auto simp: poolInv_def)
  qed
  have "results p ! i = settled (worker (items ! i))" if i: "i < length items" for i
  proof -
    from inv i have "results p ! i = settled (worker (items ! i)) \<or>
        results p ! i = Empty \<and>
          (idx p \<le> i \<or> (\<exists>r < length (runners p). runners p ! r = Awaiting i))"
      by (simp add: poolInv_def)
    with past i all show ?thesis by auto
  qed
  moreover from inv have "length (results p) = length items"
    by (simp add: poolInv_def)
  ultimately have "results p = map (\<lambda>u. settled (worker u)) items"
    by (intro nth_equalityI) simp_all
  moreover from inv past have "attempted p = [0 ..< length items]"
    by (simp add: poolInv_def min_def)
  ultimately show ?thesis by simp
qed

lemma sum_weight_update:
  assumes "r < length rs"
  shows "sum_list (map weight (rs[r := v])) + weight (rs ! r) = sum_list (map weight rs) + weight v"
  using assms
proof (induction rs arbitrary: r)
  case Nil
  then show ?case by simp
next
  case (Cons x xs)
  then show ?case by (cases r) auto
qed

lemma remaining_resume:
  assumes "enabled p r"
  shows "remaining items (resume items worker p r) < remaining items p"
proof -
  from assms have r: "r < length (runners p)" and nr: "runners p ! r \<noteq> Returned"
    by (simp_all add: enabled_def)
  show ?thesis
  proof (cases "runners p ! r")
    case Returned
    with nr show ?thesis by simp
  next
    case (Awaiting c)
    with r sum_weight_update [OF r, of Pulling] show ?thesis
      by (simp add: resume_def remaining_def)
  next
    case Pulling
    show ?thesis
    proof (cases "length items \<le> idx p")
      case True
      with r Pulling sum_weight_update [OF r, of Returned] show ?thesis
        by (simp add: resume_def remaining_def)
    next
      case False
      with r Pulling sum_weight_update [OF r, of "Awaiting (idx p)"] show ?thesis
        by (simp add: resume_def remaining_def)
    qed
  qed
qed

lemma can_finish: "\<exists>ext. finished (foldl (resume items worker) p ext)"
proof (induction "remaining items p" arbitrary: p rule: less_induct)
  case less
  show ?case
  proof (cases "finished p")
    case True
    then show ?thesis by (intro exI [of _ "[]"]) simp
  next
    case False
    then obtain r where r: "enabled p r"
      by (auto simp: finished_def enabled_def list_all_length)
    from less [OF remaining_resume [OF r]] obtain ext where
      "finished (foldl (resume items worker) (resume items worker p r) ext)"
      by blast
    then show ?thesis by (intro exI [of _ "r # ext"]) simp
  qed
qed

lemma valid_bound:
  "validFrom items worker p schedule \<Longrightarrow>
     length schedule + remaining items (foldl (resume items worker) p schedule) \<le> remaining items p"
proof (induction schedule arbitrary: p)
  case Nil
  then show ?case by simp
next
  case (Cons r rs)
  then have "enabled p r" "validFrom items worker (resume items worker p r) rs"
    by simp_all
  from Cons.IH [OF this(2)] remaining_resume [OF this(1), of items worker]
  show ?case by simp
qed

lemma remaining_init:
  "remaining items (initPool items concurrency :: 'r pool) =
     2 * length items + 2 * nat (min concurrency (int (length items)))"
  by (simp add: remaining_def initPool_def sum_list_replicate)

lemma runWithConcurrency_general:
  assumes "1 \<le> concurrency"
  shows "(runWithConcurrency items worker concurrency schedule = Some rs \<longrightarrow>
            rs = map (\<lambda>u. settled (worker u)) items \<and>
            attemptsOf items worker concurrency schedule = [0 ..< length items]) \<and>
         (\<exists>ext. runWithConcurrency items worker concurrency (schedule @ ext) \<noteq> None) \<and>
         (validFrom items worker (initPool items concurrency) schedule \<longrightarrow>
            length schedule \<le> 2 * length items + 2 * nat (min concurrency (int (length items))))"
proof (intro conjI impI)
  define p where "p = foldl (resume items worker) (initPool items concurrency) schedule"
  assume "runWithConcurrency items worker concurrency schedule = Some rs"
  then have fin: "finished p" and rs: "rs = results p"
    by (auto simp: runWithConcurrency_def p_def Let_def split: if_splits)
  have inv: "poolInv items worker p"
    unfolding p_def by (intro poolInv_foldl poolInv_init)
  have "length (runners p) = nat (min concurrency (int (length items)))"
    by (simp add: p_def initPool_def)
  with assms have "runners p \<noteq> [] \<or> items = []"
    by (cases items) auto
  from finished_results [OF inv fin this] rs
  show "rs = map (\<lambda>u. settled (worker u)) items"
    and "attemptsOf items worker concurrency schedule = [0 ..< length items]"
    by (simp_all add: attemptsOf_def p_def)
next
  from can_finish [of items worker "foldl (resume items worker) (initPool items concurrency) schedule"]
  show "\<exists>ext. runWithConcurrency items worker concurrency (schedule @ ext) \<noteq> None"
    by (auto simp: runWithConcurrency_def Let_def)
next
  assume "validFrom items worker (initPool items concurrency) schedule"
  from valid_bound [OF this] show
    "length schedule \<le> 2 * length items + 2 * nat (min concurrency (int (length items)))"
    by (simp add: remaining_init)
qed

text \<open>
  Claim C9: the handler is the only caller of \<^verbatim>\<open>runWithConcurrency\<close>, and the limit it
  passes is \<open>MAX_CONCURRENCY\<close>. For every list of units, every worker function, every
  configuration of that limit and every order in which the event loop resumes the
  runners, the list that \<^verbatim>\<open>runWithConcurrency\<close> returns is aligned with the input:
  slot \<open>i\<close> holds the value of the worker on unit \<open>i\<close>, or \<^verbatim>\<open>{ok: false, error}\<close> when the
  worker threw, and no other slot is affected; the worker is started on every unit
  exactly once, in index order. Every schedule can be continued to one under which the
  call returns, and no schedule resumes live runners more than
  \<open>2 * units + 2 * runners\<close> times.
\<close>

theorem runWithConcurrency_results:
  "(runWithConcurrency items worker (MAX_CONCURRENCY cfg) schedule = Some rs \<longrightarrow>
      rs = map (\<lambda>u. settled (worker u)) items \<and>
      attemptsOf items worker (MAX_CONCURRENCY cfg) schedule = [0 ..< length items]) \<and>
   (\<exists>ext. runWithConcurrency items worker (MAX_CONCURRENCY cfg) (schedule @ ext) \<noteq> None) \<and>
   (validFrom items worker (initPool items (MAX_CONCURRENCY cfg)) schedule \<longrightarrow>
      length schedule
        \<le> 2 * length items + 2 * nat (min (MAX_CONCURRENCY cfg) (int (length items))))"
proof -
  have "1 \<le> MAX_CONCURRENCY cfg"
    by (simp add: MAX_CONCURRENCY_def)
  then show ?thesis
    by (rule runWithConcurrency_general)
qed

lemmas pool_defs = runWithConcurrency_def attemptsOf_def initPool_def resume_def finished_def
  enabled_def settled_def workerEx_def Let_def

text \<open>
  Two units under the default limit of 3, so two runners; the worker for the second
  unit throws, and it settles before the first unit's worker does. The results are
  still in input order, the first unit's value is intact, and both units were started
  once.
\<close>

theorem runWithConcurrency_results_witness:
  "MAX_CONCURRENCY cfg0 = 3 \<and>
   runWithConcurrency [''alice'', ''bob''] workerEx (MAX_CONCURRENCY cfg0) [0, 1, 1, 1, 0, 0]
     = Some [Value 5, Failure ''Steam API error 500: down''] \<and>
   [Value 5, Failure ''Steam API error 500: down'']
     = map (\<lambda>u. settled (workerEx u)) [''alice'', ''bob''] \<and>
   attemptsOf [''alice'', ''bob''] workerEx (MAX_CONCURRENCY cfg0) [0, 1, 1, 1, 0, 0] = [0, 1] \<and>
   validFrom [''alice'', ''bob''] workerEx (initPool [''alice'', ''bob''] (MAX_CONCURRENCY cfg0))
     [0, 1, 1, 1, 0, 0] \<and>
   length [0 :: nat, 1, 1, 1, 0, 0]
     \<le> 2 * length [''alice'', ''bob''] + 2 * nat (min (MAX_CONCURRENCY cfg0) 2)"
proof -
  have lim: "MAX_CONCURRENCY cfg0 = 3"
    by (simp add: MAX_CONCURRENCY_def cfg0_def)
  have run: "runWithConcurrency [''alice'', ''bob''] workerEx (MAX_CONCURRENCY cfg0) [0, 1, 1, 1, 0, 0]
     = Some [Value 5, Failure ''Steam API error 500: down'']"
    unfolding lim by (simp add: pool_defs numeral_2_eq_2)
  have valid: "validFrom [''alice'', ''bob''] workerEx
      (initPool [''alice'', ''bob''] (MAX_CONCURRENCY cfg0)) [0, 1, 1, 1, 0, 0]"
    unfolding lim by (simp add: pool_defs numeral_2_eq_2)
  from runWithConcurrency_results [of "[''alice'', ''bob'']" workerEx cfg0 "[0, 1, 1, 1, 0, 0]"
         "[Value 5, Failure ''Steam API error 500: down'']"] run valid lim
  show ?thesis by simp
qed
end
